theory Spec2Isabelle
  imports Main
begin

section \<open>Data model of the MSAL authentication service\<close>

text \<open>
  The development embeds \<^verbatim>\<open>src/core/auth-service.ts\<close> (class \<^verbatim>\<open>MsalAuthService\<close>) and
  the initialisation effect of the React hook \<^verbatim>\<open>useAuthentication\<close>.

  Instants are milliseconds since the epoch (what \<^verbatim>\<open>Date.getTime()\<close> and \<^verbatim>\<open>Date.now()\<close>
  return) and are integers. A \<^verbatim>\<open>Date | null\<close> is an \<open>int option\<close>.

  An \<^verbatim>\<open>async\<close> method is a function from the world at its call to its outcome and the
  world at its completion: a returned value is \<open>Inr\<close>, a thrown one \<open>Inl\<close>. Such a function
  describes the call when no other callback of the service runs while it is suspended.
  Calls of \<^verbatim>\<open>loginInteractive\<close> that do interleave are modelled event by event in a
  section of their own.
\<close>

datatype AuthFlowType = popup | redirect

datatype CacheLocation = sessionStorageLocation | localStorageLocation

record MsalAuthConfig =
  clientId :: string
  tenantId :: string
  redirectUri :: string
  scopes :: "string list"
  flowType :: "AuthFlowType option"
  cacheLocation :: "CacheLocation option"
  navigateToLoginRequestUrl :: "bool option"
  prompt :: "string option"
  enableLogging :: "bool option"
  authority :: "string option"
  postLogoutRedirectUri :: "string option"
  tokenRenewalOffsetSeconds :: "int option"

text \<open>
  The MSAL \<^verbatim>\<open>Configuration\<close> object built by \<^verbatim>\<open>initialize\<close>. The constant entries of the
  literal (\<^verbatim>\<open>storeAuthStateInCookie: false\<close>, \<^verbatim>\<open>allowNativeBroker: false\<close>, the three
  timeouts and the logger's level) are the same in every configuration and are left out.
\<close>

datatype Configuration = Configuration
  (auth_clientId: string)
  (auth_authority: string)
  (auth_redirectUri: string)
  (auth_postLogoutRedirectUri: string)
  (auth_navigateToLoginRequestUrl: bool)
  (cache_cacheLocation: CacheLocation)
  (system_tokenRenewalOffsetSeconds: int)
  (system_loggerOptions: bool)

datatype PublicClientApplication = PublicClientApplication Configuration

datatype AccountInfo = AccountInfo string

text \<open>
  \<^verbatim>\<open>AuthenticationResult\<close> (what MSAL returns) and \<^verbatim>\<open>TokenResult\<close> (what the service
  returns): the service reads and writes only these three fields of either.
\<close>

record AuthenticationResult =
  accessToken :: string
  expiresOn :: "int option"
  account :: "AccountInfo option"

type_synonym TokenResult = AuthenticationResult

datatype SilentRequest = SilentRequest "string list" AccountInfo bool

datatype InteractiveRequest = InteractiveRequest "string list" string

datatype EndSessionRequest = EndSessionRequest AccountInfo

text \<open>
  Thrown values. The service distinguishes them only by \<^verbatim>\<open>instanceof BrowserAuthError\<close>,
  \<^verbatim>\<open>instanceof InteractionRequiredAuthError\<close>, \<^verbatim>\<open>instanceof Error\<close>, \<^verbatim>\<open>errorCode\<close> and
  \<^verbatim>\<open>message\<close>. \<open>Error m\<close> stands for every \<^verbatim>\<open>Error\<close> instance of another class;
  \<open>Thrown v\<close> is a thrown value that is not an \<^verbatim>\<open>Error\<close> instance.
\<close>

datatype thrown =
    Error string
  | BrowserAuthError string string
  | InteractionRequiredAuthError string string
  | Thrown string

fun instanceof_Error :: "thrown \<Rightarrow> bool" where
  "instanceof_Error (Thrown v) = False"
| "instanceof_Error e = True"

fun message :: "thrown \<Rightarrow> string" where
  "message (Error m) = m"
| "message (BrowserAuthError c m) = m"
| "message (InteractionRequiredAuthError c m) = m"
| "message (Thrown v) = []"

fun is_BrowserAuthError_code :: "thrown \<Rightarrow> string \<Rightarrow> bool" where
  "is_BrowserAuthError_code (BrowserAuthError c m) code = (c = code)"
| "is_BrowserAuthError_code e code = False"

fun instanceof_InteractionRequiredAuthError :: "thrown \<Rightarrow> bool" where
  "instanceof_InteractionRequiredAuthError (InteractionRequiredAuthError c m) = True"
| "instanceof_InteractionRequiredAuthError e = False"

subsection \<open>The host: MSAL and the browser\<close>

text \<open>
  Everything outside the service is a deterministic machine over a host state \<open>'h\<close> of any
  type: the MSAL instance, the browser's clock and whatever else the identity provider
  keeps. A provider promise is taken at the moment it settles: an operation maps the host
  state at the call to the settled outcome and the host state at resumption; a rejected
  promise is \<open>Inl\<close> (or \<open>Some\<close> for a \<^verbatim>\<open>Promise<void>\<close>). \<open>setTimeout_elapsed ms\<close> is the
  host state when a timeout of \<open>ms\<close> milliseconds has fired.
\<close>

record 'h host_ops =
  new_PublicClientApplication :: "Configuration \<Rightarrow> 'h \<Rightarrow> thrown option \<times> 'h"
  msal_initialize :: "'h \<Rightarrow> thrown option \<times> 'h"
  msal_handleRedirectPromise :: "'h \<Rightarrow> (thrown + AuthenticationResult option) \<times> 'h"
  msal_getAllAccounts :: "'h \<Rightarrow> AccountInfo list"
  msal_acquireTokenSilent :: "SilentRequest \<Rightarrow> 'h \<Rightarrow> (thrown + AuthenticationResult) \<times> 'h"
  msal_acquireTokenRedirect :: "InteractiveRequest \<Rightarrow> 'h \<Rightarrow> thrown option \<times> 'h"
  msal_acquireTokenPopup :: "InteractiveRequest \<Rightarrow> 'h \<Rightarrow> (thrown + AuthenticationResult) \<times> 'h"
  msal_logoutRedirect :: "EndSessionRequest \<Rightarrow> 'h \<Rightarrow> thrown option \<times> 'h"
  msal_logoutPopup :: "EndSessionRequest \<Rightarrow> 'h \<Rightarrow> thrown option \<times> 'h"
  Date_now :: "'h \<Rightarrow> int"
  setTimeout_elapsed :: "int \<Rightarrow> 'h \<Rightarrow> 'h"

subsection \<open>The service instance and the world around it\<close>

text \<open>
  The private fields of \<^verbatim>\<open>MsalAuthService\<close>. A \<^verbatim>\<open>setInterval\<close> handle is a positive
  integer in a browser and an object in Node, so \<^verbatim>\<open>if (this.tokenRefreshInterval)\<close> is the
  test for \<^verbatim>\<open>null\<close>.
\<close>

record service =
  msalInstance :: "PublicClientApplication option"
  config :: "MsalAuthConfig option"
  isInitialized :: bool
  cachedToken :: "string option"
  tokenExpiryTime :: "int option"
  isLoginInProgress :: bool
  flowType :: AuthFlowType
  tokenRefreshInterval :: "nat option"

text \<open>The field initialisers of the class: the state of \<^verbatim>\<open>new MsalAuthService()\<close>.\<close>

definition new_MsalAuthService :: service where
  "new_MsalAuthService =
     \<lparr> msalInstance = None, config = None, isInitialized = False, cachedToken = None,
       tokenExpiryTime = None, isLoginInProgress = False, flowType = popup,
       tokenRefreshInterval = None \<rparr>"

text \<open>
  Requests that the service sends to the provider and entries into \<^verbatim>\<open>loginInteractive\<close>,
  in the order they happen. The log is an observer: no method reads it. The synchronous
  \<^verbatim>\<open>getAllAccounts()\<close> of MSAL reads the account cache and is not logged.
\<close>

datatype event =
    LoginInteractiveEntered
  | ConstructRequested
  | InitializeRequested
  | HandleRedirectRequested
  | SilentRequested
  | PopupRequested
  | RedirectRequested
  | LogoutPopupRequested
  | LogoutRedirectRequested

text \<open>
  The world: the service, the host, the interval timers that are armed, the two browser
  storages (key and value, in key order) and the log. \<open>storageThrows\<close> says that reading
  the storages raises, which \<^verbatim>\<open>clearAuthenticationState\<close> catches.
\<close>

record 'h world =
  svc :: service
  host :: 'h
  intervals :: "nat list"
  nextHandle :: nat
  sessionStorage :: "(string \<times> string) list"
  localStorage :: "(string \<times> string) list"
  storageThrows :: bool
  trace :: "event list"

section \<open>Guards and account queries\<close>

definition NOT_INITIALIZED :: thrown where
  "NOT_INITIALIZED = Error ''MSAL not initialized. Call initialize() first.''"

text \<open>\<^verbatim>\<open>ensureInitialized\<close>: \<open>Some e\<close> is the thrown error, \<open>None\<close> a normal return.\<close>

definition ensureInitialized :: "service \<Rightarrow> thrown option" where
  "ensureInitialized s =
     (if \<not> isInitialized s \<or> msalInstance s = None \<or> config s = None
      then Some NOT_INITIALIZED else None)"

definition getAllAccounts :: "'h host_ops \<Rightarrow> 'h world \<Rightarrow> thrown + AccountInfo list" where
  "getAllAccounts P w =
     (case ensureInitialized (svc w) of
        Some e \<Rightarrow> Inl e
      | None \<Rightarrow> Inr (msal_getAllAccounts P (host w)))"

definition getCurrentAccount :: "'h host_ops \<Rightarrow> 'h world \<Rightarrow> thrown + AccountInfo option" where
  "getCurrentAccount P w =
     (case getAllAccounts P w of
        Inl e \<Rightarrow> Inl e
      | Inr accounts \<Rightarrow> Inr (case accounts of [] \<Rightarrow> None | a # rest \<Rightarrow> Some a))"

definition isLoggedIn :: "'h host_ops \<Rightarrow> 'h world \<Rightarrow> thrown + bool" where
  "isLoggedIn P w =
     (case getAllAccounts P w of
        Inl e \<Rightarrow> Inl e
      | Inr accounts \<Rightarrow> Inr (accounts \<noteq> []))"

section \<open>The token cache\<close>

text \<open>
  \<^verbatim>\<open>(result.expiresOn?.getTime() || Date.now()) - (5 * 60 * 1000)\<close>: a missing expiry and
  the instant 0 both fall back to the current time.
\<close>

definition setCachedToken :: "'h host_ops \<Rightarrow> AuthenticationResult \<Rightarrow> 'h world \<Rightarrow> 'h world" where
  "setCachedToken P result w =
     w\<lparr>svc := (svc w)\<lparr>
        cachedToken := Some (accessToken result),
        tokenExpiryTime := Some
          ((case expiresOn result of
              None \<Rightarrow> Date_now P (host w)
            | Some t \<Rightarrow> if t = 0 then Date_now P (host w) else t) - (5 * 60 * 1000))\<rparr>\<rparr>"

definition clearCachedToken :: "'h world \<Rightarrow> 'h world" where
  "clearCachedToken w = w\<lparr>svc := (svc w)\<lparr>cachedToken := None, tokenExpiryTime := None\<rparr>\<rparr>"

text \<open>
  The fast-path test of \<^verbatim>\<open>acquireTokenSilent\<close>:
  \<^verbatim>\<open>this.cachedToken && this.tokenExpiryTime && Date.now() < this.tokenExpiryTime\<close>.
  An empty string and the number 0 are falsy. The result is the cached token and its
  stored expiry when the test passes.
\<close>

definition cacheHit :: "'h host_ops \<Rightarrow> 'h world \<Rightarrow> (string \<times> int) option" where
  "cacheHit P w =
     (case cachedToken (svc w) of
        None \<Rightarrow> None
      | Some tok \<Rightarrow>
          if tok = [] then None
          else (case tokenExpiryTime (svc w) of
                  None \<Rightarrow> None
                | Some t \<Rightarrow>
                    if t \<noteq> 0 \<and> Date_now P (host w) < t then Some (tok, t) else None))"

section \<open>Stuck-interaction recovery\<close>

text \<open>
  \<^verbatim>\<open>handleInteractionInProgress\<close> runs up to its \<^verbatim>\<open>await\<close> of the two-second timeout
  (\<open>handleInteractionInProgress_sync\<close>), and resumes when the timeout has fired.
\<close>

definition handleInteractionInProgress_sync :: "'h world \<Rightarrow> 'h world" where
  "handleInteractionInProgress_sync w =
     clearCachedToken (w\<lparr>svc := (svc w)\<lparr>isLoginInProgress := False\<rparr>\<rparr>)"

definition handleInteractionInProgress :: "'h host_ops \<Rightarrow> 'h world \<Rightarrow> 'h world" where
  "handleInteractionInProgress P w =
     (let w1 = handleInteractionInProgress_sync w
      in w1\<lparr>host := setTimeout_elapsed P 2000 (host w1)\<rparr>)"

section \<open>Silent acquisition\<close>

definition acquireTokenSilent ::
  "'h host_ops \<Rightarrow> 'h world \<Rightarrow> (thrown + TokenResult) \<times> 'h world" where
  "acquireTokenSilent P w =
     (case ensureInitialized (svc w) of
        Some e \<Rightarrow> (Inl e, w)
      | None \<Rightarrow>
        (case cacheHit P w of
           Some (tok, t) \<Rightarrow>
             (case getCurrentAccount P w of
                Inl e \<Rightarrow> (Inl e, w)
              | Inr acc \<Rightarrow>
                  (Inr \<lparr> accessToken = tok, expiresOn = Some t, account = acc \<rparr>, w))
         | None \<Rightarrow>
          (case getCurrentAccount P w of
             Inl e \<Rightarrow> (Inl e, w)
           | Inr None \<Rightarrow> (Inl (Error ''NO_ACCOUNTS_FOUND''), w)
           | Inr (Some acc) \<Rightarrow>
               (let request = SilentRequest (scopes (the (config (svc w)))) acc False;
                    (r, h1) = msal_acquireTokenSilent P request (host w);
                    w1 = w\<lparr>host := h1, trace := trace w @ [SilentRequested]\<rparr>
                in case r of
                     Inr result \<Rightarrow>
                       (Inr \<lparr> accessToken = accessToken result,
                              expiresOn = expiresOn result,
                              account = account result \<rparr>,
                        setCachedToken P result w1)
                   | Inl error \<Rightarrow>
                       if is_BrowserAuthError_code error ''interaction_in_progress'' then
                         (Inl (Error ''INTERACTION_IN_PROGRESS_RESOLVED''),
                          handleInteractionInProgress P w1)
                       else if instanceof_InteractionRequiredAuthError error then
                         (Inl (Error ''INTERACTION_REQUIRED''), w1)
                       else (Inl (Error ''SILENT_REFRESH_FAILED''), w1)))))"

section \<open>The renewal timer\<close>

text \<open>
  \<^verbatim>\<open>setInterval\<close> arms a timer under a fresh handle; \<^verbatim>\<open>clearInterval\<close> disarms it.
\<close>

definition stopTokenRefreshTimer :: "'h world \<Rightarrow> 'h world" where
  "stopTokenRefreshTimer w =
     (case tokenRefreshInterval (svc w) of
        None \<Rightarrow> w
      | Some h \<Rightarrow>
          w\<lparr>intervals := removeAll h (intervals w),
            svc := (svc w)\<lparr>tokenRefreshInterval := None\<rparr>\<rparr>)"

definition startTokenRefreshTimer :: "'h world \<Rightarrow> 'h world" where
  "startTokenRefreshTimer w =
     (let w1 = stopTokenRefreshTimer w;
          h = nextHandle w1
      in w1\<lparr>intervals := h # intervals w1,
             nextHandle := Suc h,
             svc := (svc w1)\<lparr>tokenRefreshInterval := Some h\<rparr>\<rparr>)"

text \<open>
  The callback given to \<^verbatim>\<open>setInterval\<close>: one firing, run to its end. Whatever is thrown
  inside is caught and logged.
\<close>

definition refreshCallback :: "'h host_ops \<Rightarrow> 'h world \<Rightarrow> 'h world" where
  "refreshCallback P w =
     (case isLoggedIn P w of
        Inl error \<Rightarrow> w
      | Inr True \<Rightarrow> snd (acquireTokenSilent P w)
      | Inr False \<Rightarrow> stopTokenRefreshTimer w)"

text \<open>The host fires the callback of a timer only while that timer is armed.\<close>

definition fireInterval :: "'h host_ops \<Rightarrow> nat \<Rightarrow> 'h world \<Rightarrow> 'h world" where
  "fireInterval P h w = (if h \<in> set (intervals w) then refreshCallback P w else w)"

fun fireIntervals :: "'h host_ops \<Rightarrow> nat list \<Rightarrow> 'h world \<Rightarrow> 'h world" where
  "fireIntervals P [] w = w"
| "fireIntervals P (h # hs) w = fireIntervals P hs (fireInterval P h w)"

section \<open>Interactive login\<close>

text \<open>
  \<^verbatim>\<open>loginInteractive\<close> is cut at its suspension points. \<open>loginInteractive_begin\<close> is the
  synchronous part from the entry to the \<^verbatim>\<open>await\<close> of the provider's promise: it ends by
  throwing (\<open>Inl\<close>, before the \<^verbatim>\<open>try\<close>, so the \<^verbatim>\<open>finally\<close> does not run) or with the request
  sent (\<open>Inr\<close>). The \<open>_settled\<close> functions resume when that promise has settled and end
  with the call completed (\<open>Some\<close>) or suspended in the recovery timeout (\<open>None\<close>).
  \<open>loginInteractive_recovered\<close> resumes from that timeout.
\<close>

definition interactiveRequest :: "service \<Rightarrow> InteractiveRequest" where
  "interactiveRequest s =
     InteractiveRequest (scopes (the (config s)))
       (case prompt (the (config s)) of
          None \<Rightarrow> ''select_account''
        | Some p \<Rightarrow> if p = [] then ''select_account'' else p)"

definition loginInteractive_begin ::
  "'h world \<Rightarrow> (thrown + InteractiveRequest) \<times> 'h world" where
  "loginInteractive_begin w =
     (let w0 = w\<lparr>trace := trace w @ [LoginInteractiveEntered]\<rparr>
      in case ensureInitialized (svc w0) of
           Some e \<Rightarrow> (Inl e, w0)
         | None \<Rightarrow>
             if isLoginInProgress (svc w0) then (Inl (Error ''Login already in progress''), w0)
             else
               (Inr (interactiveRequest (svc w0)),
                w0\<lparr>svc := (svc w0)\<lparr>isLoginInProgress := True\<rparr>,
                   trace := trace w0 @
                     [if flowType (svc w0) = redirect then RedirectRequested
                      else PopupRequested]\<rparr>))"

definition loginInteractive_finally :: "'h world \<Rightarrow> 'h world" where
  "loginInteractive_finally w = w\<lparr>svc := (svc w)\<lparr>isLoginInProgress := False\<rparr>\<rparr>"

definition loginInteractive_catch ::
  "thrown \<Rightarrow> 'h world \<Rightarrow> (thrown + AuthenticationResult) option \<times> 'h world" where
  "loginInteractive_catch error w =
     (if is_BrowserAuthError_code error ''interaction_in_progress'' then
        (None, handleInteractionInProgress_sync w)
      else if is_BrowserAuthError_code error ''user_cancelled'' \<or>
              is_BrowserAuthError_code error ''popup_window_error'' then
        (Some (Inl (Error ''Authentication was cancelled. Please try again.'')),
         loginInteractive_finally w)
      else (Some (Inl error), loginInteractive_finally w))"

definition loginInteractive_popup_settled ::
  "'h host_ops \<Rightarrow> thrown + AuthenticationResult \<Rightarrow> 'h world \<Rightarrow>
     (thrown + AuthenticationResult) option \<times> 'h world" where
  "loginInteractive_popup_settled P r w =
     (case r of
        Inr result \<Rightarrow>
          (Some (Inr result),
           loginInteractive_finally (startTokenRefreshTimer (setCachedToken P result w)))
      | Inl error \<Rightarrow> loginInteractive_catch error w)"

definition loginInteractive_redirect_settled ::
  "thrown option \<Rightarrow> 'h world \<Rightarrow> (thrown + AuthenticationResult) option \<times> 'h world" where
  "loginInteractive_redirect_settled r w =
     (case r of
        None \<Rightarrow> loginInteractive_catch (Error ''Redirect initiated'') w
      | Some error \<Rightarrow> loginInteractive_catch error w)"

definition loginInteractive_recovered ::
  "'h world \<Rightarrow> (thrown + AuthenticationResult) \<times> 'h world" where
  "loginInteractive_recovered w =
     (Inl (Error ''Authentication window was closed or interrupted. Please try again.''),
      loginInteractive_finally w)"

text \<open>One call of \<^verbatim>\<open>loginInteractive\<close> from entry to completion, with nothing interleaved.\<close>

definition loginInteractive ::
  "'h host_ops \<Rightarrow> 'h world \<Rightarrow> (thrown + AuthenticationResult) \<times> 'h world" where
  "loginInteractive P w =
     (case loginInteractive_begin w of
        (Inl e, w1) \<Rightarrow> (Inl e, w1)
      | (Inr request, w1) \<Rightarrow>
          (let (settled, w2) =
                 (if flowType (svc w1) = redirect then
                    (let (r, h) = msal_acquireTokenRedirect P request (host w1)
                     in loginInteractive_redirect_settled r (w1\<lparr>host := h\<rparr>))
                  else
                    (let (r, h) = msal_acquireTokenPopup P request (host w1)
                     in loginInteractive_popup_settled P r (w1\<lparr>host := h\<rparr>)))
           in case settled of
                Some res \<Rightarrow> (res, w2)
              | None \<Rightarrow>
                  loginInteractive_recovered
                    (w2\<lparr>host := setTimeout_elapsed P 2000 (host w2)\<rparr>)))"

section \<open>getAccessToken and forceRefreshToken\<close>

text \<open>
  \<^verbatim>\<open>getAccessToken\<close> calls itself after the recovery; nothing bounds the recursion, so the
  result is optional and \<open>None\<close> is a call that never returns.
\<close>

definition escalates :: "thrown \<Rightarrow> bool" where
  "escalates error =
     (instanceof_Error error \<and>
      (message error = ''NO_ACCOUNTS_FOUND'' \<or>
       message error = ''INTERACTION_REQUIRED'' \<or>
       message error = ''SILENT_REFRESH_FAILED''))"

definition retries :: "thrown \<Rightarrow> bool" where
  "retries error =
     (instanceof_Error error \<and> message error = ''INTERACTION_IN_PROGRESS_RESOLVED'')"

partial_function (option) getAccessToken ::
  "'h host_ops \<Rightarrow> 'h world \<Rightarrow> ((thrown + string) \<times> 'h world) option" where
  "getAccessToken P w =
     (case acquireTokenSilent P w of
        (Inr tokenResult, w1) \<Rightarrow> Some (Inr (accessToken tokenResult), w1)
      | (Inl error, w1) \<Rightarrow>
          if escalates error then
            (case loginInteractive P w1 of
               (Inr result, w2) \<Rightarrow> Some (Inr (accessToken result), w2)
             | (Inl e, w2) \<Rightarrow> Some (Inl e, w2))
          else if retries error then getAccessToken P w1
          else Some (Inl error, w1))"

declare getAccessToken.simps [code]

definition forceRefreshToken ::
  "'h host_ops \<Rightarrow> 'h world \<Rightarrow> ((thrown + string) \<times> 'h world) option" where
  "forceRefreshToken P w = getAccessToken P (clearCachedToken w)"

section \<open>Logout and the full reset\<close>

text \<open>\<^verbatim>\<open>logout\<close>: \<open>Some e\<close> is the error it raises, \<open>None\<close> a normal return.\<close>

definition logout :: "'h host_ops \<Rightarrow> 'h world \<Rightarrow> thrown option \<times> 'h world" where
  "logout P w =
     (case ensureInitialized (svc w) of
        Some e \<Rightarrow> (Some e, w)
      | None \<Rightarrow>
          (let w1 = stopTokenRefreshTimer w
           in case getCurrentAccount P w1 of
                Inl e \<Rightarrow> (Some e, w1)
              | Inr None \<Rightarrow> (None, w1\<lparr>svc := (svc w1)\<lparr>isLoginInProgress := False\<rparr>\<rparr>)
              | Inr (Some acc) \<Rightarrow>
                  (let logoutRequest = EndSessionRequest acc;
                       (r, h) =
                         (if flowType (svc w1) = redirect
                          then msal_logoutRedirect P logoutRequest (host w1)
                          else msal_logoutPopup P logoutRequest (host w1));
                       w2 = w1\<lparr>host := h,
                               trace := trace w1 @
                                 [if flowType (svc w1) = redirect then LogoutRedirectRequested
                                  else LogoutPopupRequested]\<rparr>
                   in case r of
                        Some e \<Rightarrow> (Some e, w2)
                      | None \<Rightarrow>
                          (let w3 = clearCachedToken w2
                           in (None, w3\<lparr>svc := (svc w3)\<lparr>isLoginInProgress := False\<rparr>\<rparr>)))))"

text \<open>\<^verbatim>\<open>String.prototype.includes\<close> on byte strings.\<close>

fun startsWith :: "string \<Rightarrow> string \<Rightarrow> bool" where
  "startsWith s [] = True"
| "startsWith [] (c # cs) = False"
| "startsWith (x # xs) (c # cs) = (x = c \<and> startsWith xs cs)"

fun String_includes :: "string \<Rightarrow> string \<Rightarrow> bool" where
  "String_includes [] needle = (needle = [])"
| "String_includes (x # xs) needle = (startsWith (x # xs) needle \<or> String_includes xs needle)"

definition removeItem :: "string \<Rightarrow> (string \<times> string) list \<Rightarrow> (string \<times> string) list" where
  "removeItem key storage = filter (\<lambda>(k, v). k \<noteq> key) storage"

definition reservedKey :: "string \<Rightarrow> bool" where
  "reservedKey key =
     (String_includes key ''msal'' \<or> String_includes key ''microsoft'' \<or> String_includes key ''login'')"

text \<open>The body of the \<^verbatim>\<open>forEach\<close> over the collected keys.\<close>

definition sweepKey :: "'h world \<Rightarrow> string \<Rightarrow> 'h world" where
  "sweepKey w key =
     (if reservedKey key
      then w\<lparr>sessionStorage := removeItem key (sessionStorage w),
             localStorage := removeItem key (localStorage w)\<rparr>
      else w)"

definition clearAuthenticationState :: "'h world \<Rightarrow> 'h world" where
  "clearAuthenticationState w =
     (let w1 = stopTokenRefreshTimer w;
          w2 = w1\<lparr>svc := (svc w1)\<lparr>isLoginInProgress := False\<rparr>\<rparr>;
          w3 = clearCachedToken w2;
          w4 = (if storageThrows w3 then w3
                else (let storageKeys = map fst (sessionStorage w3) @ map fst (localStorage w3)
                      in foldl sweepKey w3 storageKeys))
      in w4\<lparr>svc := (svc w4)\<lparr>isInitialized := False\<rparr>\<rparr>)"

section \<open>Initialisation\<close>

text \<open>
  \<^verbatim>\<open>clearPendingInteractions\<close>: the outer \<^verbatim>\<open>catch\<close> swallows what \<^verbatim>\<open>getAllAccounts\<close> throws,
  the inner one what the silent acquisition throws.
\<close>

definition clearPendingInteractions :: "'h host_ops \<Rightarrow> 'h world \<Rightarrow> 'h world" where
  "clearPendingInteractions P w =
     (let w1 = w\<lparr>svc := (svc w)\<lparr>isLoginInProgress := False\<rparr>\<rparr>
      in case getAllAccounts P w1 of
           Inl error \<Rightarrow> w1
         | Inr accounts \<Rightarrow>
             if accounts \<noteq> [] then
               (case acquireTokenSilent P w1 of
                  (Inr tokenResult, w2) \<Rightarrow> w2
                | (Inl silentError, w2) \<Rightarrow>
                    if is_BrowserAuthError_code silentError ''interaction_in_progress''
                    then w2\<lparr>host := setTimeout_elapsed P 1000 (host w2)\<rparr>
                    else w2)
             else w1)"

definition msalConfig_of :: "MsalAuthConfig \<Rightarrow> Configuration" where
  "msalConfig_of cfg =
     Configuration
       (clientId cfg)
       (case authority cfg of
          None \<Rightarrow> ''https://login.microsoftonline.com/'' @ tenantId cfg
        | Some a \<Rightarrow> if a = [] then ''https://login.microsoftonline.com/'' @ tenantId cfg else a)
       (redirectUri cfg)
       (case postLogoutRedirectUri cfg of
          None \<Rightarrow> redirectUri cfg
        | Some u \<Rightarrow> if u = [] then redirectUri cfg else u)
       (case navigateToLoginRequestUrl cfg of None \<Rightarrow> False | Some b \<Rightarrow> b)
       (case cacheLocation cfg of None \<Rightarrow> localStorageLocation | Some l \<Rightarrow> l)
       (case tokenRenewalOffsetSeconds cfg of
          None \<Rightarrow> 300
        | Some n \<Rightarrow> if n = 0 then 300 else n)
       (case enableLogging cfg of None \<Rightarrow> False | Some b \<Rightarrow> b)"

text \<open>The \<^verbatim>\<open>try\<close> block of \<^verbatim>\<open>initialize\<close>: \<open>Some e\<close> is what it throws.\<close>

definition initialize_try ::
  "'h host_ops \<Rightarrow> Configuration \<Rightarrow> 'h world \<Rightarrow> thrown option \<times> 'h world" where
  "initialize_try P msalConfig w =
     (let (r0, h0) = new_PublicClientApplication P msalConfig (host w);
          w1 = w\<lparr>host := h0, trace := trace w @ [ConstructRequested]\<rparr>
      in case r0 of
           Some e \<Rightarrow> (Some e, w1)
         | None \<Rightarrow>
             (let w2 = w1\<lparr>svc := (svc w1)\<lparr>msalInstance :=
                            Some (PublicClientApplication msalConfig)\<rparr>\<rparr>;
                  (r1, h1) = msal_initialize P (host w2);
                  w3 = w2\<lparr>host := h1, trace := trace w2 @ [InitializeRequested]\<rparr>
              in case r1 of
                   Some e \<Rightarrow> (Some e, w3)
                 | None \<Rightarrow>
                     (let (r2, w4) =
                            (if flowType (svc w3) = redirect then
                               (let (rr, h2) = msal_handleRedirectPromise P (host w3);
                                    w' = w3\<lparr>host := h2,
                                            trace := trace w3 @ [HandleRedirectRequested]\<rparr>
                                in case rr of
                                     Inl e \<Rightarrow> (Some e, w')
                                   | Inr None \<Rightarrow> (None, w')
                                   | Inr (Some redirectResponse) \<Rightarrow>
                                       (None, setCachedToken P redirectResponse w'))
                             else (None, w3))
                      in case r2 of
                           Some e \<Rightarrow> (Some e, w4)
                         | None \<Rightarrow>
                             (let w5 = clearPendingInteractions P w4;
                                  w6 = w5\<lparr>svc := (svc w5)\<lparr>isInitialized := True\<rparr>\<rparr>
                              in case isLoggedIn P w6 of
                                   Inl e \<Rightarrow> (Some e, w6)
                                 | Inr True \<Rightarrow> (None, startTokenRefreshTimer w6)
                                 | Inr False \<Rightarrow> (None, w6)))))"

text \<open>
  The guard of \<^verbatim>\<open>initialize\<close>:
  \<^verbatim>\<open>this.isInitialized && this.config?.clientId === config.clientId\<close>.
\<close>

definition alreadyInitialized :: "MsalAuthConfig \<Rightarrow> service \<Rightarrow> bool" where
  "alreadyInitialized cfg s =
     (isInitialized s \<and>
      (case config s of None \<Rightarrow> False | Some c \<Rightarrow> clientId c = clientId cfg))"

definition initialize ::
  "'h host_ops \<Rightarrow> MsalAuthConfig \<Rightarrow> 'h world \<Rightarrow> thrown option \<times> 'h world" where
  "initialize P cfg w =
     (if alreadyInitialized cfg (svc w)
      then (None, w)
      else
        (let w1 = w\<lparr>svc := (svc w)\<lparr>
                     config := Some cfg,
                     flowType := (case MsalAuthConfig.flowType cfg of
                                    None \<Rightarrow> popup | Some f \<Rightarrow> f)\<rparr>\<rparr>
         in case initialize_try P (msalConfig_of cfg) w1 of
              (None, w2) \<Rightarrow> (None, w2)
            | (Some error, w2) \<Rightarrow>
                (Some error, w2\<lparr>svc := (svc w2)\<lparr>isInitialized := True\<rparr>\<rparr>)))"

section \<open>The debug status\<close>

datatype AuthServiceStatus = AuthServiceStatus
  (status_isInitialized: bool)
  (status_hasToken: bool)
  (status_tokenExpiry: "int option")
  (status_isLoginInProgress: bool)
  (status_accountCount: nat)
  (status_flowType: AuthFlowType)

definition getStatus :: "'h host_ops \<Rightarrow> 'h world \<Rightarrow> thrown + AuthServiceStatus" where
  "getStatus P w =
     (case getAllAccounts P w of
        Inl e \<Rightarrow> Inl e
      | Inr accounts \<Rightarrow>
          Inr (AuthServiceStatus
                 (isInitialized (svc w))
                 (case cachedToken (svc w) of None \<Rightarrow> False | Some tok \<Rightarrow> tok \<noteq> [])
                 (tokenExpiryTime (svc w))
                 (isLoginInProgress (svc w))
                 (length accounts)
                 (flowType (svc w))))"

section \<open>The React hook's initialisation effect\<close>

record AuthenticationState =
  isInitializing :: bool
  isAuthenticated :: bool
  needsLogin :: bool
  authError :: "string option"
  jwtToken :: "string option"
  isInIframe :: bool
  sdkInitialized :: bool

text \<open>The state update of the outer \<^verbatim>\<open>catch\<close> of the effect.\<close>

definition initializationFailed :: "thrown \<Rightarrow> AuthenticationState \<Rightarrow> AuthenticationState" where
  "initializationFailed error prev =
     prev\<lparr>authError := Some (if instanceof_Error error then message error
                              else ''Initialization failed''),
          needsLogin := True,
          isInitializing := False\<rparr>"

text \<open>
  The function \<^verbatim>\<open>initialize\<close> inside \<^verbatim>\<open>useEffect\<close>: the state updates it queues, applied in
  order to the previous state. \<open>onAuthSuccess\<close> is the optional callback, an operation of
  the host.
\<close>

definition useAuthentication_initialize ::
  "'h host_ops \<Rightarrow> MsalAuthConfig \<Rightarrow> ('h \<Rightarrow> thrown option \<times> 'h) option \<Rightarrow>
     AuthenticationState \<Rightarrow> 'h world \<Rightarrow> (AuthenticationState \<times> 'h world) option" where
  "useAuthentication_initialize P cfg onAuthSuccess prev w =
     (let st1 = prev\<lparr>isInitializing := True, authError := None, needsLogin := False\<rparr>
      in case initialize P cfg w of
           (Some error, w1) \<Rightarrow> Some (initializationFailed error st1, w1)
         | (None, w1) \<Rightarrow>
             (case isLoggedIn P w1 of
                Inl error \<Rightarrow> Some (initializationFailed error st1, w1)
              | Inr False \<Rightarrow> Some (st1\<lparr>needsLogin := True, isInitializing := False\<rparr>, w1)
              | Inr True \<Rightarrow>
                  (case getAccessToken P w1 of
                     None \<Rightarrow> None
                   | Some (Inl tokenError, w2) \<Rightarrow>
                       Some (st1\<lparr>needsLogin := True, isInitializing := False\<rparr>, w2)
                   | Some (Inr token, w2) \<Rightarrow>
                       (let st2 = st1\<lparr>jwtToken := Some token, isAuthenticated := True\<rparr>
                        in case onAuthSuccess of
                             None \<Rightarrow> Some (st2\<lparr>isInitializing := False\<rparr>, w2)
                           | Some callback \<Rightarrow>
                               (let (r, h) = callback (host w2);
                                    w3 = w2\<lparr>host := h\<rparr>
                                in case r of
                                     None \<Rightarrow> Some (st2\<lparr>isInitializing := False\<rparr>, w3)
                                   | Some tokenError \<Rightarrow>
                                       Some (st2\<lparr>needsLogin := True,
                                                 isInitializing := False\<rparr>, w3))))))"

section \<open>The renewal timer, cut at its suspension points\<close>

text \<open>
  The callback of the renewal timer awaits \<^verbatim>\<open>acquireTokenSilent\<close>, which awaits the
  provider. \<open>acquireTokenSilent_begin\<close> is the synchronous part of the method up to that
  \<^verbatim>\<open>await\<close>: it completes at once (\<open>Inl\<close>: the thrown error or the cached token) or has
  sent the request (\<open>Inr\<close>). \<open>acquireTokenSilent_settled\<close> is what the method does to the
  world when the provider's promise has settled; after it the method only waits (in the
  recovery) and returns or throws, and the timer's callback swallows either.
\<close>

definition acquireTokenSilent_begin ::
  "'h host_ops \<Rightarrow> 'h world \<Rightarrow> ((thrown + TokenResult) + SilentRequest) \<times> 'h world" where
  "acquireTokenSilent_begin P w =
     (case ensureInitialized (svc w) of
        Some e \<Rightarrow> (Inl (Inl e), w)
      | None \<Rightarrow>
        (case cacheHit P w of
           Some (tok, t) \<Rightarrow>
             (case getCurrentAccount P w of
                Inl e \<Rightarrow> (Inl (Inl e), w)
              | Inr acc \<Rightarrow>
                  (Inl (Inr \<lparr> accessToken = tok, expiresOn = Some t, account = acc \<rparr>), w))
         | None \<Rightarrow>
          (case getCurrentAccount P w of
             Inl e \<Rightarrow> (Inl (Inl e), w)
           | Inr None \<Rightarrow> (Inl (Inl (Error ''NO_ACCOUNTS_FOUND'')), w)
           | Inr (Some acc) \<Rightarrow>
               (Inr (SilentRequest (scopes (the (config (svc w)))) acc False),
                w\<lparr>trace := trace w @ [SilentRequested]\<rparr>))))"

definition acquireTokenSilent_settled ::
  "'h host_ops \<Rightarrow> thrown + AuthenticationResult \<Rightarrow> 'h world \<Rightarrow> 'h world" where
  "acquireTokenSilent_settled P r w =
     (case r of
        Inr result \<Rightarrow> setCachedToken P result w
      | Inl error \<Rightarrow>
          if is_BrowserAuthError_code error ''interaction_in_progress''
          then handleInteractionInProgress_sync w
          else w)"

text \<open>
  The synchronous part of the timer's callback: \<open>Some\<close> is the silent request it has sent
  and now awaits, \<open>None\<close> a firing that is over.
\<close>

definition refreshCallback_begin ::
  "'h host_ops \<Rightarrow> 'h world \<Rightarrow> SilentRequest option \<times> 'h world" where
  "refreshCallback_begin P w =
     (case isLoggedIn P w of
        Inl error \<Rightarrow> (None, w)
      | Inr False \<Rightarrow> (None, stopTokenRefreshTimer w)
      | Inr True \<Rightarrow>
          (case acquireTokenSilent_begin P w of
             (Inl completed, w1) \<Rightarrow> (None, w1)
           | (Inr request, w1) \<Rightarrow> (Some request, w1)))"

section \<open>Interleaved calls of loginInteractive\<close>

text \<open>
  Calls of \<^verbatim>\<open>loginInteractive\<close> on the single-threaded event loop, together with the
  service's own background activity, the renewal timer. A call runs from one suspension
  point to the next without interruption; between two such runs any other call or a
  firing of the timer may run. Each call is in one of these states, and an event runs one
  call, or the timer's callback, to its next suspension point. The provider's replies are
  free here: the outcome of a promise and the host state at that moment come with the
  event. \<open>silentPending\<close> counts the silent requests of the timer that have not settled.
\<close>

datatype call_state =
    AwaitingPopup
  | AwaitingRedirect
  | Recovering
  | Completed "thrown + AuthenticationResult"

fun pending :: "call_state \<Rightarrow> bool" where
  "pending (Completed r) = False"
| "pending c = True"

record 'h conf =
  world :: "'h world"
  calls :: "call_state list"
  silentPending :: nat

text \<open>
  \<open>TimerFires t h\<close>: the host, in state \<open>h\<close>, fires the interval timer with handle \<open>t\<close>.
  \<open>SilentSettles r h\<close>: a silent request of the timer settles with \<open>r\<close>.
\<close>

datatype 'h loop_event =
    Invoke
  | PopupSettles nat "thrown + AuthenticationResult" 'h
  | RedirectSettles nat "thrown option" 'h
  | TimeoutFires nat 'h
  | TimerFires nat 'h
  | SilentSettles "thrown + AuthenticationResult" 'h

definition resumed :: "(thrown + AuthenticationResult) option \<Rightarrow> call_state" where
  "resumed r = (case r of None \<Rightarrow> Recovering | Some res \<Rightarrow> Completed res)"

fun step :: "'h host_ops \<Rightarrow> 'h conf \<Rightarrow> 'h loop_event \<Rightarrow> 'h conf" where
  "step P c Invoke =
     (case loginInteractive_begin (world c) of
        (Inl e, w1) \<Rightarrow> c\<lparr>world := w1, calls := calls c @ [Completed (Inl e)]\<rparr>
      | (Inr request, w1) \<Rightarrow>
          c\<lparr>world := w1,
            calls := calls c @
              [if flowType (svc w1) = redirect then AwaitingRedirect else AwaitingPopup]\<rparr>)"
| "step P c (PopupSettles i r h) =
     (if i < length (calls c) \<and> calls c ! i = AwaitingPopup then
        (let (res, w1) = loginInteractive_popup_settled P r ((world c)\<lparr>host := h\<rparr>)
         in c\<lparr>world := w1, calls := (calls c)[i := resumed res]\<rparr>)
      else c)"
| "step P c (RedirectSettles i r h) =
     (if i < length (calls c) \<and> calls c ! i = AwaitingRedirect then
        (let (res, w1) = loginInteractive_redirect_settled r ((world c)\<lparr>host := h\<rparr>)
         in c\<lparr>world := w1, calls := (calls c)[i := resumed res]\<rparr>)
      else c)"
| "step P c (TimeoutFires i h) =
     (if i < length (calls c) \<and> calls c ! i = Recovering then
        (let (res, w1) = loginInteractive_recovered ((world c)\<lparr>host := h\<rparr>)
         in c\<lparr>world := w1, calls := (calls c)[i := Completed res]\<rparr>)
      else c)"
| "step P c (TimerFires t h) =
     (if t \<in> set (intervals (world c)) then
        (let (sent, w1) = refreshCallback_begin P ((world c)\<lparr>host := h\<rparr>)
         in c\<lparr>world := w1,
              silentPending := (case sent of
                                  None \<Rightarrow> silentPending c
                                | Some request \<Rightarrow> Suc (silentPending c))\<rparr>)
      else c)"
| "step P c (SilentSettles r h) =
     (if 0 < silentPending c then
        c\<lparr>world := acquireTokenSilent_settled P r ((world c)\<lparr>host := h\<rparr>),
          silentPending := silentPending c - 1\<rparr>
      else c)"

definition run :: "'h host_ops \<Rightarrow> 'h loop_event list \<Rightarrow> 'h conf \<Rightarrow> 'h conf" where
  "run P evs c = foldl (step P) c evs"

definition inFlight :: "'h conf \<Rightarrow> nat" where
  "inFlight c = length (filter pending (calls c))"

text \<open>
  The provider reports \<^verbatim>\<open>interaction_in_progress\<close>, to an interactive request or to a
  silent request of the timer.
\<close>

fun reportsStuck :: "'h loop_event \<Rightarrow> bool" where
  "reportsStuck (PopupSettles i (Inl e) h) = is_BrowserAuthError_code e ''interaction_in_progress''"
| "reportsStuck (RedirectSettles i (Some e) h) = is_BrowserAuthError_code e ''interaction_in_progress''"
| "reportsStuck (SilentSettles (Inl e) h) = is_BrowserAuthError_code e ''interaction_in_progress''"
| "reportsStuck ev = False"

text \<open>No call has been made yet and the lock is free.\<close>

definition idle :: "'h conf \<Rightarrow> bool" where
  "idle c = (calls c = [] \<and> \<not> isLoginInProgress (svc (world c)))"

section \<open>A scripted host for concrete runs\<close>

text \<open>
  A small host whose state is a clock, the provider's accounts and the number of silent
  requests it has answered. Its replies are parameters: what the constructor throws, the
  reply to the \<open>n\<close>-th silent request, the reply to a popup request and what the
  end-session request throws. A popup that succeeds signs its account in, an end-session
  request that succeeds signs everybody out, and a timeout advances the clock.
\<close>

record browser =
  clock :: int
  signedIn :: "AccountInfo list"
  silentCount :: nat

definition scripted ::
  "thrown option \<Rightarrow> (nat \<Rightarrow> thrown + AuthenticationResult) \<Rightarrow>
   (thrown + AuthenticationResult) \<Rightarrow> thrown option \<Rightarrow> browser host_ops" where
  "scripted constructReply silentReply popupReply logoutReply =
     \<lparr> new_PublicClientApplication = (\<lambda>msalConfig b. (constructReply, b)),
       msal_initialize = (\<lambda>b. (None, b)),
       msal_handleRedirectPromise = (\<lambda>b. (Inr None, b)),
       msal_getAllAccounts = signedIn,
       msal_acquireTokenSilent =
         (\<lambda>request b. (silentReply (silentCount b), b\<lparr>silentCount := Suc (silentCount b)\<rparr>)),
       msal_acquireTokenRedirect = (\<lambda>request b. (None, b)),
       msal_acquireTokenPopup =
         (\<lambda>request b.
            (popupReply,
             case popupReply of
               Inl e \<Rightarrow> b
             | Inr result \<Rightarrow>
                 (case account result of
                    None \<Rightarrow> b
                  | Some a \<Rightarrow> b\<lparr>signedIn := [a]\<rparr>))),
       msal_logoutRedirect =
         (\<lambda>request b. (logoutReply, if logoutReply = None then b\<lparr>signedIn := []\<rparr> else b)),
       msal_logoutPopup =
         (\<lambda>request b. (logoutReply, if logoutReply = None then b\<lparr>signedIn := []\<rparr> else b)),
       Date_now = clock,
       setTimeout_elapsed = (\<lambda>ms b. b\<lparr>clock := clock b + ms\<rparr>) \<rparr>"

definition stuckError :: thrown where
  "stuckError = BrowserAuthError ''interaction_in_progress'' ''Interaction is currently in progress.''"

definition sampleAccount :: AccountInfo where
  "sampleAccount = AccountInfo ''alice''"

definition sampleResult :: AuthenticationResult where
  "sampleResult = \<lparr> accessToken = ''tok'', expiresOn = Some 3600000, account = Some sampleAccount \<rparr>"

definition sampleConfig :: MsalAuthConfig where
  "sampleConfig =
     \<lparr> clientId = ''client'', tenantId = ''tenant'', redirectUri = ''https://app'',
       scopes = [''api://client/access_as_user''], flowType = None, cacheLocation = None,
       navigateToLoginRequestUrl = None, prompt = None, enableLogging = None,
       authority = None, postLogoutRedirectUri = None,
       tokenRenewalOffsetSeconds = Some 600 \<rparr>"

text \<open>A fresh service in a browser with empty storages, at instant \<open>t\<close>.\<close>

definition freshWorld :: "int \<Rightarrow> AccountInfo list \<Rightarrow> browser world" where
  "freshWorld t accts =
     \<lparr> svc = new_MsalAuthService,
       host = \<lparr> clock = t, signedIn = accts, silentCount = 0 \<rparr>,
       intervals = [], nextHandle = 1,
       sessionStorage = [], localStorage = [], storageThrows = False,
       trace = [] \<rparr>"

text \<open>The service after \<^verbatim>\<open>initialize(sampleConfig)\<close> succeeded on a fresh world.\<close>

definition readyWorld :: "int \<Rightarrow> AccountInfo list \<Rightarrow> browser world" where
  "readyWorld t accts =
     snd (initialize (scripted None (\<lambda>n. Inr sampleResult) (Inr sampleResult) None)
            sampleConfig (freshWorld t accts))"

definition sampleHost :: "browser host_ops" where
  "sampleHost = scripted None (\<lambda>n. Inr sampleResult) (Inr sampleResult) None"

text \<open>
  The ready service after one silent acquisition at instant 0 (the provider reports the
  expiry 3600000), looked at when the clock shows \<open>now\<close>.
\<close>

definition cachedWorld :: "int \<Rightarrow> browser world" where
  "cachedWorld now =
     (let w = snd (acquireTokenSilent sampleHost (readyWorld 0 [sampleAccount]))
      in w\<lparr>host := (host w)\<lparr>clock := now\<rparr>\<rparr>)"

text \<open>Hosts that fail in one way each.\<close>

definition brokenHost :: "browser host_ops" where
  "brokenHost =
     scripted (Some (Error ''invalid_client'')) (\<lambda>n. Inr sampleResult) (Inr sampleResult) None"

definition offlineHost :: "browser host_ops" where
  "offlineHost =
     (scripted None (\<lambda>n. Inl (Error ''network_error'')) (Inl (Error ''network_error'')) None)
       \<lparr>msal_getAllAccounts := (\<lambda>b. [sampleAccount])\<rparr>"

definition stuckHost :: "browser host_ops" where
  "stuckHost = scripted None (\<lambda>n. Inl stuckError) (Inr sampleResult) None"

definition settlingHost :: "browser host_ops" where
  "settlingHost =
     scripted None (\<lambda>n. if n < 2 then Inl stuckError else Inr sampleResult)
       (Inr sampleResult) None"

definition logoutFailsHost :: "browser host_ops" where
  "logoutFailsHost =
     scripted None (\<lambda>n. Inr sampleResult) (Inr sampleResult)
       (Some (Error ''popup_window_error''))"

text \<open>The world left by \<^verbatim>\<open>initialize(sampleConfig)\<close> when the constructor has thrown.\<close>

definition failedWorld :: "browser world" where
  "failedWorld =
     (freshWorld 0 [])\<lparr>
        svc := new_MsalAuthService\<lparr>config := Some sampleConfig, isInitialized := True\<rparr>,
        trace := [ConstructRequested]\<rparr>"

text \<open>The ready service with its timer armed, after the provider has lost the account.\<close>

definition signedOutArmed :: "browser world" where
  "signedOutArmed =
     (readyWorld 0 [sampleAccount])\<lparr>
        host := \<lparr>clock = 1800000, signedIn = [], silentCount = 0\<rparr>\<rparr>"

definition idleConf :: "browser conf" where
  "idleConf = \<lparr>world = readyWorld 0 [], calls = [], silentPending = 0\<rparr>"

text \<open>The ready service with an account and its timer (handle 1) armed, no call made.\<close>

definition armedConf :: "browser conf" where
  "armedConf = \<lparr>world = readyWorld 0 [sampleAccount], calls = [], silentPending = 0\<rparr>"

definition otherConfig :: MsalAuthConfig where
  "otherConfig = sampleConfig\<lparr>clientId := ''other-client''\<rparr>"

definition aliceAt :: "int \<Rightarrow> browser" where
  "aliceAt t = \<lparr>clock = t, signedIn = [sampleAccount], silentCount = 0\<rparr>"

definition hostAt :: "int \<Rightarrow> browser" where
  "hostAt t = \<lparr>clock = t, signedIn = [], silentCount = 0\<rparr>"

text \<open>The state in which the hook starts.\<close>

definition initialState :: AuthenticationState where
  "initialState =
     \<lparr> isInitializing = True, isAuthenticated = False, needsLogin = False,
       authError = None, jwtToken = None, isInIframe = False, sdkInitialized = False \<rparr>"

section \<open>Notions used in the statements\<close>

text \<open>
  A silent acquisition that ends in the recovery and asks the caller to retry, and the
  world in which \<^verbatim>\<open>getAccessToken\<close> then calls itself.
\<close>

definition stuck :: "'h host_ops \<Rightarrow> 'h world \<Rightarrow> bool" where
  "stuck P w =
     (fst (acquireTokenSilent P w) = Inl (Error ''INTERACTION_IN_PROGRESS_RESOLVED''))"

definition afterRecovery :: "'h host_ops \<Rightarrow> 'h world \<Rightarrow> 'h world" where
  "afterRecovery P w = snd (acquireTokenSilent P w)"

text \<open>
  What the provider's end-session call of \<^verbatim>\<open>logout\<close> throws in the world \<open>w\<close>: nothing
  when there is no account (the call is not made) or when the call succeeds.
\<close>

definition endSessionThrows :: "'h host_ops \<Rightarrow> 'h world \<Rightarrow> thrown option" where
  "endSessionThrows P w =
     (case msal_getAllAccounts P (host w) of
        [] \<Rightarrow> None
      | acc # rest \<Rightarrow>
          fst (if flowType (svc w) = redirect
               then msal_logoutRedirect P (EndSessionRequest acc) (host w)
               else msal_logoutPopup P (EndSessionRequest acc) (host w)))"

text \<open>
  An initialized service with an account and an empty cache: against \<open>stuckHost\<close> every
  silent acquisition from such a world ends in the recovery.
\<close>

definition wedged :: "browser world \<Rightarrow> bool" where
  "wedged w =
     (ensureInitialized (svc w) = None \<and> cachedToken (svc w) = None \<and>
      signedIn (host w) \<noteq> [])"

text \<open>
  The invariant of the event loop while no call is in recovery: at most one call is
  pending, the lock is held exactly while one is, and that call entered an initialized
  service.
\<close>

definition flightInv :: "'h conf \<Rightarrow> bool" where
  "flightInv c =
     (Recovering \<notin> set (calls c) \<and>
      inFlight c \<le> 1 \<and>
      (isLoginInProgress (svc (world c)) \<longleftrightarrow> inFlight c = 1) \<and>
      (inFlight c = 1 \<longrightarrow> ensureInitialized (svc (world c)) = None))"

section \<open>Concrete worlds, evaluated\<close>

lemma readyWorld_signedIn:
  "readyWorld t [sampleAccount] =
    \<lparr>svc = \<lparr>msalInstance = Some (PublicClientApplication (msalConfig_of sampleConfig)),
            config = Some sampleConfig, isInitialized = True, cachedToken = None,
            tokenExpiryTime = None, isLoginInProgress = False, flowType = popup,
            tokenRefreshInterval = Some 1\<rparr>,
     host = \<lparr>clock = t, signedIn = [sampleAccount], silentCount = 0\<rparr>,
     intervals = [1], nextHandle = 2, sessionStorage = [], localStorage = [],
     storageThrows = False, trace = [ConstructRequested, InitializeRequested]\<rparr>"
  by (simp add: readyWorld_def freshWorld_def initialize_def initialize_try_def
      scripted_def new_MsalAuthService_def clearPendingInteractions_def getAllAccounts_def
      ensureInitialized_def isLoggedIn_def startTokenRefreshTimer_def
      stopTokenRefreshTimer_def sampleConfig_def alreadyInitialized_def)

lemma readyWorld_signedOut:
  "readyWorld t [] =
    \<lparr>svc = \<lparr>msalInstance = Some (PublicClientApplication (msalConfig_of sampleConfig)),
            config = Some sampleConfig, isInitialized = True, cachedToken = None,
            tokenExpiryTime = None, isLoginInProgress = False, flowType = popup,
            tokenRefreshInterval = None\<rparr>,
     host = \<lparr>clock = t, signedIn = [], silentCount = 0\<rparr>,
     intervals = [], nextHandle = 1, sessionStorage = [], localStorage = [],
     storageThrows = False, trace = [ConstructRequested, InitializeRequested]\<rparr>"
  by (simp add: readyWorld_def freshWorld_def initialize_def initialize_try_def
      scripted_def new_MsalAuthService_def clearPendingInteractions_def getAllAccounts_def
      ensureInitialized_def isLoggedIn_def sampleConfig_def alreadyInitialized_def)

lemma cachedWorld_eval:
  "cachedWorld now =
    \<lparr>svc = \<lparr>msalInstance = Some (PublicClientApplication (msalConfig_of sampleConfig)),
            config = Some sampleConfig, isInitialized = True, cachedToken = Some ''tok'',
            tokenExpiryTime = Some 3300000, isLoginInProgress = False, flowType = popup,
            tokenRefreshInterval = Some 1\<rparr>,
     host = \<lparr>clock = now, signedIn = [sampleAccount], silentCount = 1\<rparr>,
     intervals = [1], nextHandle = 2, sessionStorage = [], localStorage = [],
     storageThrows = False,
     trace = [ConstructRequested, InitializeRequested, SilentRequested]\<rparr>"
  by (simp add: cachedWorld_def readyWorld_signedIn sampleHost_def scripted_def
      acquireTokenSilent_def cacheHit_def getCurrentAccount_def setCachedToken_def
      getAllAccounts_def ensureInitialized_def sampleResult_def)

section \<open>The effective window of the cache\<close>

lemma acquireTokenSilent_hit:
  assumes "ensureInitialized (svc w) = None"
    and "cachedToken (svc w) = Some tok" and "tok \<noteq> []"
    and "tokenExpiryTime (svc w) = Some t" and "t \<noteq> 0" and "Date_now P (host w) < t"
  shows "acquireTokenSilent P w =
     (Inr \<lparr>accessToken = tok, expiresOn = Some t,
           account = (case msal_getAllAccounts P (host w) of [] \<Rightarrow> None | a # rest \<Rightarrow> Some a)\<rparr>,
      w)"
  using assms
  by (simp add: acquireTokenSilent_def cacheHit_def getCurrentAccount_def getAllAccounts_def)

lemma acquireTokenSilent_miss:
  assumes "cacheHit P w = None"
  shows "isl (fst (acquireTokenSilent P w)) \<or>
         trace (snd (acquireTokenSilent P w)) = trace w @ [SilentRequested]"
  using assms
  by (auto simp: acquireTokenSilent_def getCurrentAccount_def getAllAccounts_def
        handleInteractionInProgress_def handleInteractionInProgress_sync_def
        clearCachedToken_def setCachedToken_def Let_def
      split: option.splits sum.splits prod.splits list.splits)

text \<open>Every successful silent acquisition that asks the provider caches its result.\<close>

lemma acquireTokenSilent_caches:
  assumes "ensureInitialized (svc w) = None" "cacheHit P w = None"
    and "msal_getAllAccounts P (host w) = acc # rest"
    and "msal_acquireTokenSilent P (SilentRequest (scopes (the (config (svc w)))) acc False)
           (host w) = (Inr result, h1)"
  shows "snd (acquireTokenSilent P w) =
           setCachedToken P result (w\<lparr>host := h1, trace := trace w @ [SilentRequested]\<rparr>)"
  using assms
  by (simp add: acquireTokenSilent_def getCurrentAccount_def getAllAccounts_def)

text \<open>
  Claim C1, as amended. When a result with the token \<open>tok\<close> and the provider-reported expiry
  \<open>E\<close> (not the instant 0) is cached, the stored expiry is \<open>E\<close> minus the fixed 300000 ms,
  whatever renewal offset the configuration carries. At any later host state \<open>h\<close>,
  \<^verbatim>\<open>acquireTokenSilent\<close> returns the cached token with that expiry and leaves the world as
  it is (no request is sent) exactly when the token is not the empty string, the stored
  expiry is not 0 and the clock is before the stored expiry. In every other case it fails
  or sends one silent request to the provider.
\<close>

theorem cache_effective_window:
  fixes P :: "'h host_ops" and w :: "'h world" and tok a E h
  defines "w1 \<equiv>
    (setCachedToken P \<lparr>accessToken = tok, expiresOn = Some E, account = a\<rparr> w)\<lparr>host := h\<rparr>"
  defines "fresh \<equiv> tok \<noteq> [] \<and> E - 300000 \<noteq> 0 \<and> Date_now P h < E - 300000"
  assumes init: "ensureInitialized (svc w) = None" and E: "E \<noteq> 0"
  shows "tokenExpiryTime (svc w1) = Some (E - 300000) \<and>
    (acquireTokenSilent P w1 =
       (Inr \<lparr>accessToken = tok, expiresOn = Some (E - 300000),
             account = (case msal_getAllAccounts P h of [] \<Rightarrow> None | x # xs \<Rightarrow> Some x)\<rparr>, w1)
     \<longleftrightarrow> fresh) \<and>
    (\<not> fresh \<longrightarrow>
       isl (fst (acquireTokenSilent P w1)) \<or>
       trace (snd (acquireTokenSilent P w1)) = trace w1 @ [SilentRequested])"
proof -
  have exp: "tokenExpiryTime (svc w1) = Some (E - 300000)"
    and tk: "cachedToken (svc w1) = Some tok"
    and ini: "ensureInitialized (svc w1) = None"
    and hst: "host w1 = h"
    using init E by (simp_all add: w1_def setCachedToken_def ensureInitialized_def)
  have hit: "acquireTokenSilent P w1 =
       (Inr \<lparr>accessToken = tok, expiresOn = Some (E - 300000),
             account = (case msal_getAllAccounts P h of [] \<Rightarrow> None | x # xs \<Rightarrow> Some x)\<rparr>, w1)"
    if "fresh"
    using acquireTokenSilent_hit [OF ini tk _ exp, of P] that hst by (simp add: fresh_def)
  have miss: "isl (fst (acquireTokenSilent P w1)) \<or>
       trace (snd (acquireTokenSilent P w1)) = trace w1 @ [SilentRequested]"
    if "\<not> fresh"
  proof (rule acquireTokenSilent_miss)
    show "cacheHit P w1 = None"
      using that exp tk hst by (auto simp: cacheHit_def fresh_def)
  qed
  have "fresh" if "acquireTokenSilent P w1 =
       (Inr \<lparr>accessToken = tok, expiresOn = Some (E - 300000),
             account = (case msal_getAllAccounts P h of [] \<Rightarrow> None | x # xs \<Rightarrow> Some x)\<rparr>, w1)"
  proof (rule ccontr)
    assume "\<not> fresh"
    from miss [OF this] that show False by simp
  qed
  with hit miss exp show ?thesis by blast
qed

theorem cache_effective_window_witness:
  "ensureInitialized (svc (readyWorld 0 [sampleAccount])) = None \<and> (3600000 :: int) \<noteq> 0 \<and>
   tokenExpiryTime
     (svc ((setCachedToken sampleHost sampleResult (readyWorld 0 [sampleAccount]))
             \<lparr>host := \<lparr>clock = 3299999, signedIn = [sampleAccount], silentCount = 1\<rparr>\<rparr>))
     = Some 3300000 \<and>
   fst (acquireTokenSilent sampleHost
     ((setCachedToken sampleHost sampleResult (readyWorld 0 [sampleAccount]))
        \<lparr>host := \<lparr>clock = 3299999, signedIn = [sampleAccount], silentCount = 1\<rparr>\<rparr>))
     = Inr \<lparr>accessToken = ''tok'', expiresOn = Some 3300000, account = Some sampleAccount\<rparr>"
  using cache_effective_window [where w = "readyWorld 0 [sampleAccount]" and E = 3600000
      and P = sampleHost and tok = "''tok''" and a = "Some sampleAccount"
      and h = "\<lparr>clock = 3299999, signedIn = [sampleAccount], silentCount = 1\<rparr>"]
  by (simp add: readyWorld_signedIn ensureInitialized_def sampleResult_def sampleHost_def
      scripted_def)

text \<open>
  Claim C1 as stated fails. The sample configuration asks for a renewal offset of 600
  seconds and the provider reports the expiry 3600000. The stored expiry is 3300000, not
  3600000 - 600 * 1000, and at the instant 3100000, which is past the expiry minus the
  configured offset, the cached token is still returned and no request is sent.
\<close>

theorem cache_window_configured_lead_counterexample:
  "tokenRenewalOffsetSeconds sampleConfig = Some 600 \<and>
   config (svc (cachedWorld 3100000)) = Some sampleConfig \<and>
   tokenExpiryTime (svc (cachedWorld 3100000)) \<noteq> Some (3600000 - 600 * 1000) \<and>
   3600000 - 600 * 1000 \<le> Date_now sampleHost (host (cachedWorld 3100000)) \<and>
   acquireTokenSilent sampleHost (cachedWorld 3100000) =
     (Inr \<lparr>accessToken = ''tok'', expiresOn = Some 3300000, account = Some sampleAccount\<rparr>,
      cachedWorld 3100000)"
  by (simp add: cachedWorld_eval sampleHost_def scripted_def sampleConfig_def
      acquireTokenSilent_def cacheHit_def getCurrentAccount_def getAllAccounts_def
      ensureInitialized_def)

section \<open>What the methods leave alone\<close>

lemma acquireTokenSilent_frame:
  "isInitialized (svc (snd (acquireTokenSilent P w))) = isInitialized (svc w)"
  "config (svc (snd (acquireTokenSilent P w))) = config (svc w)"
  "msalInstance (svc (snd (acquireTokenSilent P w))) = msalInstance (svc w)"
  "flowType (svc (snd (acquireTokenSilent P w))) = flowType (svc w)"
  "tokenRefreshInterval (svc (snd (acquireTokenSilent P w))) = tokenRefreshInterval (svc w)"
  "intervals (snd (acquireTokenSilent P w)) = intervals w"
  "nextHandle (snd (acquireTokenSilent P w)) = nextHandle w"
  by (auto simp: acquireTokenSilent_def getCurrentAccount_def getAllAccounts_def
        handleInteractionInProgress_def handleInteractionInProgress_sync_def
        clearCachedToken_def setCachedToken_def Let_def
      split: option.splits sum.splits prod.splits list.splits)

lemma acquireTokenSilent_throws:
  "fst (acquireTokenSilent P w) = Inl e \<Longrightarrow>
     e = NOT_INITIALIZED \<or> e = Error ''NO_ACCOUNTS_FOUND'' \<or>
     e = Error ''INTERACTION_IN_PROGRESS_RESOLVED'' \<or> e = Error ''INTERACTION_REQUIRED'' \<or>
     e = Error ''SILENT_REFRESH_FAILED''"
  by (auto simp: acquireTokenSilent_def getCurrentAccount_def getAllAccounts_def
        ensureInitialized_def Let_def
      split: option.splits sum.splits prod.splits list.splits if_splits)

lemma acquireTokenSilent_trace:
  "\<exists>rest. trace (snd (acquireTokenSilent P w)) = trace w @ rest"
  by (auto simp: acquireTokenSilent_def getCurrentAccount_def getAllAccounts_def
        handleInteractionInProgress_def handleInteractionInProgress_sync_def
        clearCachedToken_def setCachedToken_def Let_def
      split: option.splits sum.splits prod.splits list.splits)

lemma acquireTokenSilent_no_account:
  assumes "ensureInitialized (svc w) = None" "cachedToken (svc w) = None"
    "msal_getAllAccounts P (host w) = []"
  shows "acquireTokenSilent P w = (Inl (Error ''NO_ACCOUNTS_FOUND''), w)"
  using assms
  by (simp add: acquireTokenSilent_def cacheHit_def getCurrentAccount_def getAllAccounts_def)

lemma loginInteractive_begin_cases:
  "loginInteractive_begin w =
     (if ensureInitialized (svc w) \<noteq> None
      then (Inl (the (ensureInitialized (svc w))),
            w\<lparr>trace := trace w @ [LoginInteractiveEntered]\<rparr>)
      else if isLoginInProgress (svc w)
      then (Inl (Error ''Login already in progress''),
            w\<lparr>trace := trace w @ [LoginInteractiveEntered]\<rparr>)
      else (Inr (interactiveRequest (svc w)),
            w\<lparr>svc := (svc w)\<lparr>isLoginInProgress := True\<rparr>,
              trace := trace w @ [LoginInteractiveEntered,
                 if flowType (svc w) = redirect then RedirectRequested else PopupRequested]\<rparr>))"
  by (auto simp: loginInteractive_begin_def Let_def split: option.splits)

lemma loginInteractive_frame:
  "isInitialized (svc (snd (loginInteractive P w))) = isInitialized (svc w)"
  "config (svc (snd (loginInteractive P w))) = config (svc w)"
  "msalInstance (svc (snd (loginInteractive P w))) = msalInstance (svc w)"
  "flowType (svc (snd (loginInteractive P w))) = flowType (svc w)"
  by (auto simp: loginInteractive_def loginInteractive_begin_def loginInteractive_catch_def
        loginInteractive_popup_settled_def loginInteractive_redirect_settled_def
        loginInteractive_recovered_def loginInteractive_finally_def
        startTokenRefreshTimer_def stopTokenRefreshTimer_def
        handleInteractionInProgress_sync_def
        clearCachedToken_def setCachedToken_def Let_def
      split: option.splits sum.splits prod.splits list.splits)

lemma loginInteractive_trace:
  "trace (snd (loginInteractive P w)) =
     trace w @ LoginInteractiveEntered #
       (if ensureInitialized (svc w) \<noteq> None \<or> isLoginInProgress (svc w) then []
        else [if flowType (svc w) = redirect then RedirectRequested else PopupRequested])"
  by (auto simp: loginInteractive_def loginInteractive_begin_def loginInteractive_catch_def
        loginInteractive_popup_settled_def loginInteractive_redirect_settled_def
        loginInteractive_recovered_def loginInteractive_finally_def
        startTokenRefreshTimer_def stopTokenRefreshTimer_def
        handleInteractionInProgress_sync_def
        clearCachedToken_def setCachedToken_def Let_def
      split: option.splits sum.splits prod.splits list.splits)

lemma logout_frame:
  "isInitialized (svc (snd (logout P w))) = isInitialized (svc w)"
  "config (svc (snd (logout P w))) = config (svc w)"
  by (auto simp: logout_def getCurrentAccount_def getAllAccounts_def
        stopTokenRefreshTimer_def clearCachedToken_def Let_def
      split: option.splits sum.splits prod.splits list.splits)

lemma refreshCallback_frame:
  "isInitialized (svc (refreshCallback P w)) = isInitialized (svc w)"
  "config (svc (refreshCallback P w)) = config (svc w)"
  by (auto simp: refreshCallback_def acquireTokenSilent_frame stopTokenRefreshTimer_def
      split: sum.splits bool.splits option.splits)

text \<open>
  Facts about a call of \<^verbatim>\<open>getAccessToken\<close> that returns follow the recursion: the rule
  \<open>getAccessToken.raw_induct\<close> gives the fact for the inner call.
\<close>

lemma getAccessToken_frame:
  fixes P :: "'h host_ops"
  assumes ret: "getAccessToken P w = Some y"
  shows "isInitialized (svc (snd y)) = isInitialized (svc w) \<and>
         config (svc (snd y)) = config (svc w)"
proof -
  let ?Q = "\<lambda>(P :: 'h host_ops, w :: 'h world) (y :: (thrown + string) \<times> 'h world).
      isInitialized (svc (snd y)) = isInitialized (svc w) \<and>
      config (svc (snd y)) = config (svc w)"
  have "?Q (P, w) y"
  proof (rule getAccessToken.raw_induct [where Pa = ?Q, OF _ ret])
    fix f :: "'h host_ops \<Rightarrow> 'h world \<Rightarrow> ((thrown + string) \<times> 'h world) option"
    fix P w y
    assume IH: "\<And>P w y. f P w = Some y \<Longrightarrow> ?Q (P, w) y"
    assume body: "(case acquireTokenSilent P w of
        (Inl error, w1) \<Rightarrow>
          if escalates error
          then case loginInteractive P w1 of (Inl e, w2) \<Rightarrow> Some (Inl e, w2)
               | (Inr result, w2) \<Rightarrow> Some (Inr (accessToken result), w2)
          else if retries error then f P w1 else Some (Inl error, w1)
      | (Inr tokenResult, w1) \<Rightarrow> Some (Inr (accessToken tokenResult), w1)) = Some y"
    obtain r w1 where Pair: "acquireTokenSilent P w = (r, w1)"
      by (cases "acquireTokenSilent P w")
    have w1: "isInitialized (svc w1) = isInitialized (svc w)" "config (svc w1) = config (svc w)"
      using acquireTokenSilent_frame(1,2) [of P w] Pair by simp_all
    show "?Q (P, w) y"
    proof (cases r)
      case (Inr t)
      with body Pair w1 show ?thesis by auto
    next
      case (Inl error)
      show ?thesis
      proof (cases "escalates error")
        case True
        with body Pair Inl w1 loginInteractive_frame(1,2) [of P w1] show ?thesis
          by (auto split: prod.splits sum.splits)
      next
        case False
        show ?thesis
        proof (cases "retries error")
          case True
          with body Pair Inl False have "f P w1 = Some y" by simp
          from IH [OF this] w1 show ?thesis by simp
        next
          case nr: False
          with body Pair Inl False w1 show ?thesis by auto
        qed
      qed
    qed
  qed
  then show ?thesis by simp
qed

section \<open>The full reset\<close>

lemma sweepKey_fields [simp]:
  "svc (sweepKey w k) = svc w"
  "host (sweepKey w k) = host w"
  "intervals (sweepKey w k) = intervals w"
  "nextHandle (sweepKey w k) = nextHandle w"
  "storageThrows (sweepKey w k) = storageThrows w"
  "trace (sweepKey w k) = trace w"
  "sessionStorage (sweepKey w k) =
     (if reservedKey k then removeItem k (sessionStorage w) else sessionStorage w)"
  "localStorage (sweepKey w k) =
     (if reservedKey k then removeItem k (localStorage w) else localStorage w)"
  by (simp_all add: sweepKey_def)

lemma foldl_sweepKey_fields [simp]:
  "svc (foldl sweepKey w ks) = svc w"
  "host (foldl sweepKey w ks) = host w"
  "intervals (foldl sweepKey w ks) = intervals w"
  "nextHandle (foldl sweepKey w ks) = nextHandle w"
  "storageThrows (foldl sweepKey w ks) = storageThrows w"
  "trace (foldl sweepKey w ks) = trace w"
  by (induction ks arbitrary: w) simp_all

text \<open>The loop removes from both storages every reserved key among the collected ones.\<close>

lemma foldl_sweepKey_storage:
  "sessionStorage (foldl sweepKey w ks) =
     filter (\<lambda>(k, v). \<not> (reservedKey k \<and> k \<in> set ks)) (sessionStorage w)"
  "localStorage (foldl sweepKey w ks) =
     filter (\<lambda>(k, v). \<not> (reservedKey k \<and> k \<in> set ks)) (localStorage w)"
proof (induction ks arbitrary: w)
  case Nil
  {
    case 1 show ?case by simp
  next
    case 2 show ?case by simp
  }
next
  case (Cons k ks)
  {
    case 1 show ?case
      by (auto simp: Cons.IH removeItem_def intro!: filter_cong)
  next
    case 2 show ?case
      by (auto simp: Cons.IH removeItem_def intro!: filter_cong)
  }
qed

lemma clearAuthenticationState_closed:
  "clearAuthenticationState w =
     w\<lparr>svc := (svc w)\<lparr>tokenRefreshInterval := None, isLoginInProgress := False,
                      cachedToken := None, tokenExpiryTime := None, isInitialized := False\<rparr>,
       intervals := (case tokenRefreshInterval (svc w) of
                       None \<Rightarrow> intervals w | Some h \<Rightarrow> removeAll h (intervals w)),
       sessionStorage := (if storageThrows w then sessionStorage w
                          else filter (\<lambda>(k, v). \<not> reservedKey k) (sessionStorage w)),
       localStorage := (if storageThrows w then localStorage w
                        else filter (\<lambda>(k, v). \<not> reservedKey k) (localStorage w))\<rparr>"
  apply (rule world.equality)
  apply (simp_all add: clearAuthenticationState_def Let_def stopTokenRefreshTimer_def
      clearCachedToken_def foldl_sweepKey_storage split: option.splits)
  apply (auto intro!: filter_cong simp: rev_image_eqI)
  done

text \<open>
  Claim C8. \<^verbatim>\<open>clearAuthenticationState()\<close> is idempotent: from every starting world, a
  second call in succession leaves the world of the first call as it is. That world has
  the timer handle, the cached token and its expiry cleared, the lock flag and the
  initialized flag false, and both storages without the reserved keys (untouched when
  reading the storages raises).
\<close>

theorem clearAuthenticationState_idempotent:
  "clearAuthenticationState (clearAuthenticationState w) = clearAuthenticationState w \<and>
   tokenRefreshInterval (svc (clearAuthenticationState w)) = None \<and>
   isLoginInProgress (svc (clearAuthenticationState w)) = False \<and>
   cachedToken (svc (clearAuthenticationState w)) = None \<and>
   tokenExpiryTime (svc (clearAuthenticationState w)) = None \<and>
   isInitialized (svc (clearAuthenticationState w)) = False \<and>
   sessionStorage (clearAuthenticationState w) =
     (if storageThrows w then sessionStorage w
      else filter (\<lambda>(k, v). \<not> reservedKey k) (sessionStorage w)) \<and>
   localStorage (clearAuthenticationState w) =
     (if storageThrows w then localStorage w
      else filter (\<lambda>(k, v). \<not> reservedKey k) (localStorage w))"
  by (simp add: clearAuthenticationState_closed split: option.splits)

section \<open>The debug status\<close>

text \<open>
  Claim C9. The debug status cannot be read before initialization: on every service whose
  initialized flag is false, \<^verbatim>\<open>getStatus()\<close> throws the not-initialized error, because it
  counts the accounts through \<^verbatim>\<open>getAllAccounts()\<close>. This is so on a service that was never
  initialized and on one that \<^verbatim>\<open>clearAuthenticationState()\<close> has reset.
\<close>

theorem getStatus_requires_initialization:
  "(\<not> isInitialized (svc w) \<longrightarrow> getStatus P w = Inl NOT_INITIALIZED) \<and>
   getStatus P (w\<lparr>svc := new_MsalAuthService\<rparr>) = Inl NOT_INITIALIZED \<and>
   getStatus P (clearAuthenticationState w) = Inl NOT_INITIALIZED"
proof -
  have "getStatus P v = Inl NOT_INITIALIZED" if "\<not> isInitialized (svc v)" for v :: "'a world"
    using that by (simp add: getStatus_def getAllAccounts_def ensureInitialized_def)
  then show ?thesis
    by (simp add: new_MsalAuthService_def clearAuthenticationState_closed)
qed

theorem getStatus_requires_initialization_witness:
  "\<not> isInitialized (svc (freshWorld 0 [sampleAccount])) \<and>
   getStatus sampleHost (freshWorld 0 [sampleAccount]) =
     Inl (Error ''MSAL not initialized. Call initialize() first.'')"
  using getStatus_requires_initialization [of "freshWorld 0 [sampleAccount]" sampleHost]
  by (simp add: freshWorld_def new_MsalAuthService_def NOT_INITIALIZED_def)

section \<open>A failed initialisation\<close>

lemma alreadyInitialized_cong:
  "isInitialized s' = isInitialized s \<Longrightarrow> config s' = config s \<Longrightarrow>
   alreadyInitialized cfg s' = alreadyInitialized cfg s"
  by (simp add: alreadyInitialized_def)

lemma clearPendingInteractions_frame:
  "config (svc (clearPendingInteractions P w)) = config (svc w) \<and>
   (\<exists>rest. trace (clearPendingInteractions P w) = trace w @ rest)"
proof -
  let ?w1 = "w\<lparr>svc := (svc w)\<lparr>isLoginInProgress := False\<rparr>\<rparr>"
  obtain r w2 where A: "acquireTokenSilent P ?w1 = (r, w2)"
    by (cases "acquireTokenSilent P ?w1")
  have F: "config (svc w2) = config (svc w)"
    using acquireTokenSilent_frame(2) [of P ?w1] A by simp
  obtain rest where T: "trace w2 = trace w @ rest"
    using acquireTokenSilent_trace [of P ?w1] A by auto
  show ?thesis
    unfolding clearPendingInteractions_def Let_def A
    by (simp add: F T split: sum.splits)
qed

lemma initialize_try_frame:
  "config (svc (snd (initialize_try P c w))) = config (svc w) \<and>
   (\<exists>rest. trace (snd (initialize_try P c w)) = trace w @ ConstructRequested # rest)"
proof -
  have cp: "config (svc (clearPendingInteractions P v)) = config (svc w) \<and>
     (\<exists>rest. trace (clearPendingInteractions P v) = trace w @ ConstructRequested # rest)"
    if "config (svc v) = config (svc w)" "\<exists>r. trace v = trace w @ ConstructRequested # r"
    for v :: "'a world"
    using clearPendingInteractions_frame [of P v] that by auto
  obtain r0 h0 where c0: "new_PublicClientApplication P c (host w) = (r0, h0)"
    by (cases "new_PublicClientApplication P c (host w)")
  show ?thesis
  proof (cases r0)
    case (Some e)
    then show ?thesis by (simp add: initialize_try_def c0)
  next
    case None
    let ?w2 = "w\<lparr>host := h0, trace := trace w @ [ConstructRequested],
                  svc := (svc w)\<lparr>msalInstance := Some (PublicClientApplication c)\<rparr>\<rparr>"
    obtain r1 h1 where c1: "msal_initialize P h0 = (r1, h1)"
      by (cases "msal_initialize P h0")
    show ?thesis
    proof (cases r1)
      case (Some e)
      then show ?thesis using None by (simp add: initialize_try_def c0 c1)
    next
      case n1: None
      let ?w3 = "?w2\<lparr>host := h1, trace := trace ?w2 @ [InitializeRequested]\<rparr>"
      obtain rr h2 where c2: "msal_handleRedirectPromise P h1 = (rr, h2)"
        by (cases "msal_handleRedirectPromise P h1")
      define w4r where "w4r =
        (if flowType (svc w) = redirect then
           (case rr of
              Inl e \<Rightarrow>
                (Some e, ?w3\<lparr>host := h2, trace := trace ?w3 @ [HandleRedirectRequested]\<rparr>)
            | Inr None \<Rightarrow>
                (None, ?w3\<lparr>host := h2, trace := trace ?w3 @ [HandleRedirectRequested]\<rparr>)
            | Inr (Some resp) \<Rightarrow>
                (None, setCachedToken P resp
                   (?w3\<lparr>host := h2, trace := trace ?w3 @ [HandleRedirectRequested]\<rparr>)))
         else (None, ?w3))"
      have w4: "config (svc (snd w4r)) = config (svc w)"
         "\<exists>r. trace (snd w4r) = trace w @ ConstructRequested # r"
        by (auto simp: w4r_def setCachedToken_def split: sum.splits option.splits)
      have eq: "initialize_try P c w =
         (case fst w4r of
            Some e \<Rightarrow> (Some e, snd w4r)
          | None \<Rightarrow>
              (let w5 = clearPendingInteractions P (snd w4r);
                   w6 = w5\<lparr>svc := (svc w5)\<lparr>isInitialized := True\<rparr>\<rparr>
               in case isLoggedIn P w6 of
                    Inl e \<Rightarrow> (Some e, w6)
                  | Inr True \<Rightarrow> (None, startTokenRefreshTimer w6)
                  | Inr False \<Rightarrow> (None, w6)))"
        using None n1
        by (simp add: initialize_try_def c0 c1 c2 w4r_def split: sum.splits option.splits)
      show ?thesis
        unfolding eq using cp [OF w4] w4
        by (auto simp: Let_def startTokenRefreshTimer_def stopTokenRefreshTimer_def
            split: option.splits sum.splits bool.splits)
    qed
  qed
qed

lemma initialize_failed_state:
  assumes "initialize P cfg w = (Some e, w1)"
  shows "isInitialized (svc w1) \<and> config (svc w1) = Some cfg"
proof -
  let ?v = "w\<lparr>svc := (svc w)\<lparr>config := Some cfg,
                     flowType := (case MsalAuthConfig.flowType cfg of
                                    None \<Rightarrow> popup | Some f \<Rightarrow> f)\<rparr>\<rparr>"
  obtain r w2 where t: "initialize_try P (msalConfig_of cfg) ?v = (r, w2)"
    by (cases "initialize_try P (msalConfig_of cfg) ?v")
  have "config (svc w2) = Some cfg"
    using initialize_try_frame [of P "msalConfig_of cfg" ?v] t by simp
  with assms t show ?thesis
    by (auto simp: initialize_def Let_def split: if_splits option.splits)
qed

lemma initialize_trace:
  assumes "\<not> alreadyInitialized cfg (svc w)"
  shows "\<exists>rest. trace (snd (initialize P cfg w)) = trace w @ ConstructRequested # rest"
proof -
  let ?v = "w\<lparr>svc := (svc w)\<lparr>config := Some cfg,
                     flowType := (case MsalAuthConfig.flowType cfg of
                                    None \<Rightarrow> popup | Some f \<Rightarrow> f)\<rparr>\<rparr>"
  obtain r w2 where t: "initialize_try P (msalConfig_of cfg) ?v = (r, w2)"
    by (cases "initialize_try P (msalConfig_of cfg) ?v")
  obtain rest where "trace w2 = trace w @ ConstructRequested # rest"
    using initialize_try_frame [of P "msalConfig_of cfg" ?v] t by auto
  with assms t show ?thesis
    by (auto simp: initialize_def Let_def split: option.splits)
qed

lemma initialize_stores_config:
  assumes "\<not> alreadyInitialized cfg (svc w)"
  shows "config (svc (snd (initialize P cfg w))) = Some cfg"
proof -
  let ?v = "w\<lparr>svc := (svc w)\<lparr>config := Some cfg,
                     flowType := (case MsalAuthConfig.flowType cfg of
                                    None \<Rightarrow> popup | Some f \<Rightarrow> f)\<rparr>\<rparr>"
  obtain r w2 where t: "initialize_try P (msalConfig_of cfg) ?v = (r, w2)"
    by (cases "initialize_try P (msalConfig_of cfg) ?v")
  have "config (svc w2) = Some cfg"
    using initialize_try_frame [of P "msalConfig_of cfg" ?v] t by simp
  with assms t show ?thesis
    by (auto simp: initialize_def Let_def split: option.splits)
qed

text \<open>
  An \<^verbatim>\<open>initialize\<close> with another client id runs (it may succeed or throw) and stores its
  configuration; the guard for the first client id then fails.
\<close>

lemma other_client_reenables:
  fixes P :: "'h host_ops"
  assumes st: "isInitialized (svc w1)" "config (svc w1) = Some cfg"
    and same: "clientId cfg' = clientId cfg" and other: "clientId cfg2 \<noteq> clientId cfg"
  shows "\<not> alreadyInitialized cfg' (svc (snd (initialize P cfg2 w1))) \<and>
         (\<exists>rest. trace (snd (initialize P cfg' (snd (initialize P cfg2 w1)))) =
                   trace (snd (initialize P cfg2 w1)) @ ConstructRequested # rest)"
proof -
  have n2: "\<not> alreadyInitialized cfg2 (svc w1)"
    using st other by (simp add: alreadyInitialized_def)
  have "config (svc (snd (initialize P cfg2 w1))) = Some cfg2"
    by (rule initialize_stores_config [OF n2])
  then have n: "\<not> alreadyInitialized cfg' (svc (snd (initialize P cfg2 w1)))"
    using same other by (simp add: alreadyInitialized_def)
  from n initialize_trace [OF n, of P] show ?thesis by blast
qed

lemma other_then_same_eval:
  "initialize sampleHost otherConfig failedWorld =
     (None,
      \<lparr>svc = \<lparr>msalInstance = Some (PublicClientApplication (msalConfig_of otherConfig)),
            config = Some otherConfig, isInitialized = True, cachedToken = None,
            tokenExpiryTime = None, isLoginInProgress = False, flowType = popup,
            tokenRefreshInterval = None\<rparr>,
     host = \<lparr>clock = 0, signedIn = [], silentCount = 0\<rparr>,
     intervals = [], nextHandle = 1, sessionStorage = [], localStorage = [],
     storageThrows = False,
     trace = [ConstructRequested, ConstructRequested, InitializeRequested]\<rparr>)"
  by (simp add: initialize_def initialize_try_def failedWorld_def freshWorld_def
      new_MsalAuthService_def alreadyInitialized_def otherConfig_def sampleConfig_def
      sampleHost_def scripted_def clearPendingInteractions_def getAllAccounts_def
      ensureInitialized_def isLoggedIn_def)

lemma broken_initialize:
  "initialize brokenHost sampleConfig (freshWorld 0 []) =
     (Some (Error ''invalid_client''), failedWorld)"
  by (simp add: initialize_def initialize_try_def brokenHost_def scripted_def freshWorld_def
        alreadyInitialized_def new_MsalAuthService_def sampleConfig_def failedWorld_def)

text \<open>
  Claim C10, as amended. When \<^verbatim>\<open>initialize(cfg)\<close> has thrown, the service is marked
  initialized all the same. For every configuration with the client id of the failed
  attempt, and whatever the provider would now do, a further \<^verbatim>\<open>initialize\<close> returns at once
  and leaves the world as it is, so the provider is not constructed again. The methods
  \<^verbatim>\<open>acquireTokenSilent\<close>, \<^verbatim>\<open>loginInteractive\<close>, \<^verbatim>\<open>logout\<close>, \<^verbatim>\<open>getAccessToken\<close>,
  \<^verbatim>\<open>forceRefreshToken\<close> and a firing of the renewal timer do not change that. Two things
  re-enable the initialisation: \<^verbatim>\<open>clearAuthenticationState()\<close>, which resets the flag, and an
  \<^verbatim>\<open>initialize\<close> with a different client id, which replaces the stored configuration
  whether it succeeds or throws. After either, \<^verbatim>\<open>initialize\<close> with the client id of the
  failed attempt constructs the provider again.
\<close>

theorem failed_initialize_is_not_retried:
  fixes P P' :: "'h host_ops"
  assumes fail: "initialize P cfg w = (Some e, w1)" and same: "clientId cfg' = clientId cfg"
  shows "alreadyInitialized cfg' (svc w1) \<and>
         initialize P' cfg' w1 = (None, w1) \<and>
         alreadyInitialized cfg' (svc (snd (acquireTokenSilent P' w1))) \<and>
         alreadyInitialized cfg' (svc (snd (loginInteractive P' w1))) \<and>
         alreadyInitialized cfg' (svc (snd (logout P' w1))) \<and>
         alreadyInitialized cfg' (svc (refreshCallback P' w1)) \<and>
         (\<forall>y. getAccessToken P' w1 = Some y \<longrightarrow> alreadyInitialized cfg' (svc (snd y))) \<and>
         (\<forall>y. forceRefreshToken P' w1 = Some y \<longrightarrow> alreadyInitialized cfg' (svc (snd y))) \<and>
         \<not> alreadyInitialized cfg' (svc (clearAuthenticationState w1)) \<and>
         (\<exists>rest. trace (snd (initialize P' cfg' (clearAuthenticationState w1))) =
                   trace w1 @ ConstructRequested # rest) \<and>
         (clientId cfg2 \<noteq> clientId cfg \<longrightarrow>
            \<not> alreadyInitialized cfg' (svc (snd (initialize P' cfg2 w1))) \<and>
            (\<exists>rest. trace (snd (initialize P' cfg' (snd (initialize P' cfg2 w1)))) =
                      trace (snd (initialize P' cfg2 w1)) @ ConstructRequested # rest))"
proof -
  note fs = initialize_failed_state [OF fail]
  from fs same
  have ai: "alreadyInitialized cfg' (svc w1)"
    by (simp add: alreadyInitialized_def)
  have noop: "initialize P' cfg' w1 = (None, w1)"
    using ai by (simp add: initialize_def)
  have m1: "alreadyInitialized cfg' (svc (snd (acquireTokenSilent P' w1)))"
    using ai by (simp add: alreadyInitialized_cong [OF acquireTokenSilent_frame(1,2)])
  have m2: "alreadyInitialized cfg' (svc (snd (loginInteractive P' w1)))"
    using ai by (simp add: alreadyInitialized_cong [OF loginInteractive_frame(1,2)])
  have m3: "alreadyInitialized cfg' (svc (snd (logout P' w1)))"
    using ai by (simp add: alreadyInitialized_cong [OF logout_frame(1,2)])
  have m4: "alreadyInitialized cfg' (svc (refreshCallback P' w1))"
    using ai by (simp add: alreadyInitialized_cong [OF refreshCallback_frame(1,2)])
  have m5: "alreadyInitialized cfg' (svc (snd y))" if "getAccessToken P' w1 = Some y" for y
    using getAccessToken_frame [OF that] ai by (simp add: alreadyInitialized_def)
  have m6: "alreadyInitialized cfg' (svc (snd y))" if "forceRefreshToken P' w1 = Some y" for y
    using getAccessToken_frame [of P' "clearCachedToken w1" y] that ai
    by (simp add: alreadyInitialized_def forceRefreshToken_def clearCachedToken_def)
  have c1: "\<not> alreadyInitialized cfg' (svc (clearAuthenticationState w1))"
    by (simp add: alreadyInitialized_def clearAuthenticationState_closed)
  have c2: "\<exists>rest. trace (snd (initialize P' cfg' (clearAuthenticationState w1))) =
                   trace w1 @ ConstructRequested # rest"
    using initialize_trace [OF c1, of P'] by (simp add: clearAuthenticationState_closed)
  have o: "\<not> alreadyInitialized cfg' (svc (snd (initialize P' cfg2 w1))) \<and>
            (\<exists>rest. trace (snd (initialize P' cfg' (snd (initialize P' cfg2 w1)))) =
                      trace (snd (initialize P' cfg2 w1)) @ ConstructRequested # rest)"
    if "clientId cfg2 \<noteq> clientId cfg"
    using other_client_reenables [of w1 cfg cfg' cfg2 P'] fs same that by simp
  from ai noop m1 m2 m3 m4 m5 m6 c1 c2 o show ?thesis by blast
qed

theorem failed_initialize_is_not_retried_witness:
  "initialize brokenHost sampleConfig (freshWorld 0 []) =
     (Some (Error ''invalid_client''), failedWorld) \<and>
   clientId sampleConfig = clientId sampleConfig \<and>
   clientId otherConfig \<noteq> clientId sampleConfig \<and>
   initialize sampleHost sampleConfig failedWorld = (None, failedWorld) \<and>
   msalInstance (svc failedWorld) = None \<and>
   \<not> alreadyInitialized sampleConfig (svc (clearAuthenticationState failedWorld)) \<and>
   \<not> alreadyInitialized sampleConfig (svc (snd (initialize sampleHost otherConfig failedWorld)))"
  using failed_initialize_is_not_retried
          [OF broken_initialize, of sampleConfig sampleHost otherConfig]
    broken_initialize
  by (simp add: failedWorld_def new_MsalAuthService_def otherConfig_def sampleConfig_def)

text \<open>
  Claim C10 as stated fails: \<^verbatim>\<open>clearAuthenticationState()\<close> is not the only way back. After
  the failed \<^verbatim>\<open>initialize(sampleConfig)\<close>, an \<^verbatim>\<open>initialize\<close> with another client id runs and
  replaces the stored configuration; the next \<^verbatim>\<open>initialize(sampleConfig)\<close> is then no no-op:
  it constructs and initialises the provider again, with no reset in between.
\<close>

theorem retry_without_clear_counterexample:
  "initialize brokenHost sampleConfig (freshWorld 0 []) =
     (Some (Error ''invalid_client''), failedWorld) \<and>
   fst (initialize sampleHost otherConfig failedWorld) = None \<and>
   trace (snd (initialize sampleHost otherConfig failedWorld)) =
     [ConstructRequested, ConstructRequested, InitializeRequested] \<and>
   initialize sampleHost sampleConfig (snd (initialize sampleHost otherConfig failedWorld)) \<noteq>
     (None, snd (initialize sampleHost otherConfig failedWorld)) \<and>
   trace (snd (initialize sampleHost sampleConfig
                 (snd (initialize sampleHost otherConfig failedWorld)))) =
     [ConstructRequested, ConstructRequested, InitializeRequested,
      ConstructRequested, InitializeRequested] \<and>
   msalInstance (svc (snd (initialize sampleHost sampleConfig
                 (snd (initialize sampleHost otherConfig failedWorld))))) =
     Some (PublicClientApplication (msalConfig_of sampleConfig))"
  unfolding other_then_same_eval
  by (simp add: broken_initialize)
     (simp add: initialize_def initialize_try_def
      alreadyInitialized_def otherConfig_def sampleConfig_def
      sampleHost_def scripted_def clearPendingInteractions_def getAllAccounts_def
      ensureInitialized_def isLoggedIn_def)

section \<open>The hook after a failed initialisation\<close>

text \<open>
  Claim C6. Whatever \<^verbatim>\<open>initialize(config)\<close> throws (a failing constructor, a failing
  provider initialisation, or anything later), the initialisation effect of the hook ends,
  and its state snapshot then has \<^verbatim>\<open>isInitializing\<close> false, \<^verbatim>\<open>needsLogin\<close> true and
  \<^verbatim>\<open>authError\<close> set to the message of the thrown error (to the text
  \<^verbatim>\<open>Initialization failed\<close> when the thrown value is not an \<^verbatim>\<open>Error\<close> and has no message).
\<close>

theorem initialization_failure_resolves_to_needsLogin:
  assumes "initialize P cfg w = (Some e, w1)"
  shows "\<exists>st. useAuthentication_initialize P cfg onAuthSuccess prev w = Some (st, w1) \<and>
           \<not> isInitializing st \<and> needsLogin st \<and>
           authError st =
             Some (if instanceof_Error e then message e else ''Initialization failed'')"
  using assms by (simp add: useAuthentication_initialize_def initializationFailed_def)

theorem initialization_failure_resolves_to_needsLogin_witness:
  "initialize brokenHost sampleConfig (freshWorld 0 []) =
     (Some (Error ''invalid_client''), failedWorld) \<and>
   (\<exists>st. useAuthentication_initialize brokenHost sampleConfig None initialState
            (freshWorld 0 []) = Some (st, failedWorld) \<and>
     \<not> isInitializing st \<and> needsLogin st \<and> authError st = Some ''invalid_client'')"
  using initialization_failure_resolves_to_needsLogin
          [OF broken_initialize, of None initialState]
        broken_initialize
  by simp

section \<open>The renewal timer under failures\<close>

lemma refreshCallback_keeps_timer:
  assumes "isLoggedIn P w \<noteq> Inr False"
  shows "tokenRefreshInterval (svc (refreshCallback P w)) = tokenRefreshInterval (svc w) \<and>
         intervals (refreshCallback P w) = intervals w"
  using assms
  by (auto simp: refreshCallback_def acquireTokenSilent_frame split: sum.splits bool.splits)

lemma fireIntervals_keeps_timer:
  assumes "\<forall>h. msal_getAllAccounts P h \<noteq> []"
  shows "tokenRefreshInterval (svc (fireIntervals P hs w)) = tokenRefreshInterval (svc w) \<and>
         intervals (fireIntervals P hs w) = intervals w"
proof (induction hs arbitrary: w)
  case Nil
  show ?case by simp
next
  case (Cons h hs)
  have "isLoggedIn P w \<noteq> Inr False"
    using assms by (auto simp: isLoggedIn_def getAllAccounts_def split: option.splits)
  from refreshCallback_keeps_timer [OF this] Cons.IH [of "fireInterval P h w"]
  show ?case by (simp add: fireInterval_def)
qed

text \<open>
  Claim C7. A firing of the renewal timer leaves the timer armed (same handle, same armed
  timers) unless the callback sees an initialized service without an account: so it does
  when the silent acquisition throws, and when the account query itself throws. When the
  callback sees no account it does nothing but stop the timer. Hence, against a provider
  that always lists an account, the timer stays armed through every sequence of firings,
  whatever the silent acquisitions do.
\<close>

theorem renewal_timer_survives_failures:
  "(isLoggedIn P w \<noteq> Inr False \<longrightarrow>
      tokenRefreshInterval (svc (refreshCallback P w)) = tokenRefreshInterval (svc w) \<and>
      intervals (refreshCallback P w) = intervals w) \<and>
   (isLoggedIn P w = Inr False \<longrightarrow> refreshCallback P w = stopTokenRefreshTimer w) \<and>
   ((\<forall>h. msal_getAllAccounts P h \<noteq> []) \<longrightarrow>
      tokenRefreshInterval (svc (fireIntervals P hs w)) = tokenRefreshInterval (svc w) \<and>
      intervals (fireIntervals P hs w) = intervals w)"
  using refreshCallback_keeps_timer [of P w] fireIntervals_keeps_timer [of P hs w]
  by (auto simp: refreshCallback_def)

theorem renewal_timer_survives_failures_witness:
  "isLoggedIn offlineHost (readyWorld 0 [sampleAccount]) \<noteq> Inr False \<and>
   fst (acquireTokenSilent offlineHost (readyWorld 0 [sampleAccount])) =
     Inl (Error ''SILENT_REFRESH_FAILED'') \<and>
   tokenRefreshInterval (svc (refreshCallback offlineHost (readyWorld 0 [sampleAccount]))) =
     Some 1 \<and>
   intervals (refreshCallback offlineHost (readyWorld 0 [sampleAccount])) = [1] \<and>
   (\<forall>h. msal_getAllAccounts offlineHost h \<noteq> []) \<and>
   tokenRefreshInterval
     (svc (fireIntervals offlineHost [1, 1, 1] (readyWorld 0 [sampleAccount]))) = Some 1 \<and>
   intervals (fireIntervals offlineHost [1, 1, 1] (readyWorld 0 [sampleAccount])) = [1] \<and>
   isLoggedIn sampleHost signedOutArmed = Inr False \<and>
   tokenRefreshInterval (svc (refreshCallback sampleHost signedOutArmed)) = None \<and>
   intervals (refreshCallback sampleHost signedOutArmed) = []"
proof -
  have a: "isLoggedIn offlineHost (readyWorld 0 [sampleAccount]) \<noteq> Inr False"
    "fst (acquireTokenSilent offlineHost (readyWorld 0 [sampleAccount])) =
       Inl (Error ''SILENT_REFRESH_FAILED'')"
    by (simp_all add: isLoggedIn_def getAllAccounts_def readyWorld_signedIn
      ensureInitialized_def offlineHost_def scripted_def acquireTokenSilent_def cacheHit_def
      getCurrentAccount_def sampleConfig_def)
  have b: "\<forall>h. msal_getAllAccounts offlineHost h \<noteq> []"
    by (simp add: offlineHost_def)
  have c: "isLoggedIn sampleHost signedOutArmed = Inr False"
    by (simp add: isLoggedIn_def getAllAccounts_def readyWorld_signedIn ensureInitialized_def
      sampleHost_def scripted_def signedOutArmed_def)
  have d: "tokenRefreshInterval (svc (stopTokenRefreshTimer signedOutArmed)) = None"
     "intervals (stopTokenRefreshTimer signedOutArmed) = []"
    by (simp_all add: stopTokenRefreshTimer_def signedOutArmed_def readyWorld_signedIn)
  have e: "tokenRefreshInterval (svc (readyWorld 0 [sampleAccount])) = Some 1"
    "intervals (readyWorld 0 [sampleAccount]) = [1]"
    by (simp_all add: readyWorld_signedIn)
  from renewal_timer_survives_failures [of offlineHost "readyWorld 0 [sampleAccount]" "[1, 1, 1]"]
    renewal_timer_survives_failures [of sampleHost signedOutArmed "[]"]
    a b c d e
  show ?thesis by simp
qed

section \<open>Escalation to the interactive login\<close>

text \<open>
  Claim C3. On an initialized service with no cached token and no account at the provider,
  \<^verbatim>\<open>getAccessToken()\<close> returns, and what it does is one call of \<^verbatim>\<open>loginInteractive()\<close>: it
  ends in the world of that call, with the access token of its result when the call
  succeeds and with its error otherwise. The log gains one entry into \<^verbatim>\<open>loginInteractive\<close>,
  followed by one interactive request to the provider unless the lock was held.
\<close>

theorem getAccessToken_escalates_once:
  assumes init: "ensureInitialized (svc w) = None"
    and nocache: "cachedToken (svc w) = None"
    and noacct: "msal_getAllAccounts P (host w) = []"
  shows "getAccessToken P w =
           Some (map_sum (\<lambda>e. e) accessToken (fst (loginInteractive P w)),
                 snd (loginInteractive P w)) \<and>
         count_list (trace (snd (loginInteractive P w))) LoginInteractiveEntered =
           Suc (count_list (trace w) LoginInteractiveEntered) \<and>
         trace (snd (loginInteractive P w)) =
           trace w @ LoginInteractiveEntered #
             (if isLoginInProgress (svc w) then []
              else [if flowType (svc w) = redirect then RedirectRequested else PopupRequested])"
proof -
  have "escalates (Error ''NO_ACCOUNTS_FOUND'')" by (simp add: escalates_def)
  then have "getAccessToken P w =
           Some (map_sum (\<lambda>e. e) accessToken (fst (loginInteractive P w)),
                 snd (loginInteractive P w))"
    by (subst getAccessToken.simps)
       (simp add: acquireTokenSilent_no_account [OF assms] split: prod.splits sum.splits)
  moreover have "trace (snd (loginInteractive P w)) =
           trace w @ LoginInteractiveEntered #
             (if isLoginInProgress (svc w) then []
              else [if flowType (svc w) = redirect then RedirectRequested else PopupRequested])"
    using init by (simp add: loginInteractive_trace)
  ultimately show ?thesis by (simp split: if_splits)
qed

theorem getAccessToken_escalates_once_witness:
  "ensureInitialized (svc (readyWorld 0 [])) = None \<and>
   cachedToken (svc (readyWorld 0 [])) = None \<and>
   msal_getAllAccounts sampleHost (host (readyWorld 0 [])) = [] \<and>
   fst (loginInteractive sampleHost (readyWorld 0 [])) = Inr sampleResult \<and>
   map_option fst (getAccessToken sampleHost (readyWorld 0 [])) = Some (Inr ''tok'') \<and>
   map_option (trace \<circ> snd) (getAccessToken sampleHost (readyWorld 0 [])) =
     Some [ConstructRequested, InitializeRequested, LoginInteractiveEntered, PopupRequested]"
proof -
  have h: "ensureInitialized (svc (readyWorld 0 [])) = None"
    "cachedToken (svc (readyWorld 0 [])) = None"
    "msal_getAllAccounts sampleHost (host (readyWorld 0 [])) = []"
    by (simp_all add: readyWorld_signedOut ensureInitialized_def sampleHost_def scripted_def)
  have l: "fst (loginInteractive sampleHost (readyWorld 0 [])) = Inr sampleResult"
    by (simp add: loginInteractive_def loginInteractive_begin_cases readyWorld_signedOut
        ensureInitialized_def sampleHost_def scripted_def loginInteractive_popup_settled_def)
  have f: "flowType (svc (readyWorld 0 [])) = popup"
    "\<not> isLoginInProgress (svc (readyWorld 0 []))"
    "trace (readyWorld 0 []) = [ConstructRequested, InitializeRequested]"
    by (simp_all add: readyWorld_signedOut)
  from getAccessToken_escalates_once [OF h] h l f show ?thesis
    by (simp add: sampleResult_def)
qed

section \<open>The retry after the recovery\<close>

lemma retries_iff:
  assumes "fst (acquireTokenSilent P w) = Inl e"
  shows "retries e \<longleftrightarrow> e = Error ''INTERACTION_IN_PROGRESS_RESOLVED''"
  using acquireTokenSilent_throws [OF assms]
  by (auto simp: retries_def NOT_INITIALIZED_def)

lemma getAccessToken_stuck:
  assumes "stuck P w"
  shows "getAccessToken P w = getAccessToken P (afterRecovery P w)"
proof -
  obtain w1 where
    "acquireTokenSilent P w = (Inl (Error ''INTERACTION_IN_PROGRESS_RESOLVED''), w1)"
    using assms by (cases "acquireTokenSilent P w") (simp add: stuck_def)
  then show ?thesis
    by (subst getAccessToken.simps) (simp add: afterRecovery_def escalates_def retries_def)
qed

lemma getAccessToken_not_stuck:
  assumes "\<not> stuck P w"
  shows "\<exists>y. getAccessToken P w = Some y"
proof -
  obtain r w1 where a: "acquireTokenSilent P w = (r, w1)"
    by (cases "acquireTokenSilent P w")
  show ?thesis
  proof (cases r)
    case (Inr t)
    with a show ?thesis by (subst getAccessToken.simps) simp
  next
    case (Inl e)
    with a assms have "\<not> retries e"
      using retries_iff [of P w e] by (simp add: stuck_def)
    with a Inl show ?thesis
      by (subst getAccessToken.simps) (simp split: prod.splits sum.splits)
  qed
qed

lemma getAccessToken_returns_if:
  "\<not> stuck P ((afterRecovery P ^^ n) w) \<Longrightarrow> \<exists>y. getAccessToken P w = Some y"
proof (induction n arbitrary: w)
  case 0
  then have "\<not> stuck P w" by simp
  then show ?case by (rule getAccessToken_not_stuck)
next
  case (Suc n)
  show ?case
  proof (cases "stuck P w")
    case True
    from Suc.prems have "\<not> stuck P ((afterRecovery P ^^ n) (afterRecovery P w))"
      by (simp add: funpow_swap1)
    from Suc.IH [OF this] getAccessToken_stuck [OF True] show ?thesis by simp
  next
    case False
    then show ?thesis by (rule getAccessToken_not_stuck)
  qed
qed

lemma getAccessToken_returns_only_if:
  fixes P :: "'h host_ops"
  assumes ret: "getAccessToken P w = Some y"
  shows "\<exists>n. \<not> stuck P ((afterRecovery P ^^ n) w)"
proof -
  let ?Q = "\<lambda>(P :: 'h host_ops, w :: 'h world) (y :: (thrown + string) \<times> 'h world).
      \<exists>n. \<not> stuck P ((afterRecovery P ^^ n) w)"
  have "?Q (P, w) y"
  proof (rule getAccessToken.raw_induct [where Pa = ?Q, OF _ ret])
    fix f :: "'h host_ops \<Rightarrow> 'h world \<Rightarrow> ((thrown + string) \<times> 'h world) option"
    fix P w y
    assume IH: "\<And>P w y. f P w = Some y \<Longrightarrow> ?Q (P, w) y"
    assume body: "(case acquireTokenSilent P w of
        (Inl error, w1) \<Rightarrow>
          if escalates error
          then case loginInteractive P w1 of (Inl e, w2) \<Rightarrow> Some (Inl e, w2)
               | (Inr result, w2) \<Rightarrow> Some (Inr (accessToken result), w2)
          else if retries error then f P w1 else Some (Inl error, w1)
      | (Inr tokenResult, w1) \<Rightarrow> Some (Inr (accessToken tokenResult), w1)) = Some y"
    show "?Q (P, w) y"
    proof (cases "stuck P w")
      case False
      then have "\<not> stuck P ((afterRecovery P ^^ 0) w)" by simp
      then show ?thesis by blast
    next
      case True
      then obtain w1 where
        a: "acquireTokenSilent P w = (Inl (Error ''INTERACTION_IN_PROGRESS_RESOLVED''), w1)"
        by (cases "acquireTokenSilent P w") (simp add: stuck_def)
      with body have "f P w1 = Some y" by (simp add: escalates_def retries_def)
      from IH [OF this] obtain n where "\<not> stuck P ((afterRecovery P ^^ n) w1)" by auto
      moreover have "w1 = afterRecovery P w" using a by (simp add: afterRecovery_def)
      ultimately have "\<not> stuck P ((afterRecovery P ^^ Suc n) w)" by (simp add: funpow_swap1)
      then show ?thesis by blast
    qed
  qed
  then show ?thesis by simp
qed

text \<open>
  Claim C4, as amended. Nothing in the code bounds the retry. The chain of recursive
  \<^verbatim>\<open>getAccessToken()\<close> calls ends exactly when, after some finite number of recoveries, a
  silent acquisition does not end in the recovery again (it then succeeds, escalates to
  the interactive login or surfaces its error); each provider promise is taken to settle.
\<close>

theorem getAccessToken_retry_terminates_iff:
  "(\<exists>y. getAccessToken P w = Some y) \<longleftrightarrow> (\<exists>n. \<not> stuck P ((afterRecovery P ^^ n) w))"
  using getAccessToken_returns_if [of P _ w] getAccessToken_returns_only_if [of P w] by blast

lemma settling_steps:
  "\<not> stuck settlingHost ((afterRecovery settlingHost ^^ 2) (readyWorld 0 [sampleAccount]))"
  by (simp add: eval_nat_numeral stuck_def afterRecovery_def readyWorld_signedIn
      acquireTokenSilent_def cacheHit_def getCurrentAccount_def getAllAccounts_def
      ensureInitialized_def settlingHost_def scripted_def stuckError_def
      handleInteractionInProgress_def handleInteractionInProgress_sync_def clearCachedToken_def
      sampleConfig_def)

theorem getAccessToken_retry_terminates_iff_witness:
  "\<not> stuck settlingHost ((afterRecovery settlingHost ^^ 2) (readyWorld 0 [sampleAccount])) \<and>
   stuck settlingHost (readyWorld 0 [sampleAccount]) \<and>
   (\<exists>y. getAccessToken settlingHost (readyWorld 0 [sampleAccount]) = Some y)"
proof -
  have s: "stuck settlingHost (readyWorld 0 [sampleAccount])"
    by (simp add: stuck_def readyWorld_signedIn
      acquireTokenSilent_def cacheHit_def getCurrentAccount_def getAllAccounts_def
      ensureInitialized_def settlingHost_def scripted_def stuckError_def sampleConfig_def)
  from getAccessToken_retry_terminates_iff [of settlingHost "readyWorld 0 [sampleAccount]"]
    settling_steps s
  show ?thesis by blast
qed

lemma wedged_step:
  assumes "wedged w"
  shows "stuck stuckHost w \<and> wedged (afterRecovery stuckHost w)"
  using assms
  by (auto simp: wedged_def stuck_def afterRecovery_def acquireTokenSilent_def cacheHit_def
      getCurrentAccount_def getAllAccounts_def stuckHost_def scripted_def stuckError_def
      handleInteractionInProgress_def handleInteractionInProgress_sync_def clearCachedToken_def
      ensureInitialized_def Let_def
      split: list.splits if_splits)

lemma wedged_forever: "wedged w \<Longrightarrow> wedged ((afterRecovery stuckHost ^^ n) w)"
  by (induction n) (simp_all add: wedged_step)

text \<open>
  Claim C4 as stated fails. Against a provider that reports \<^verbatim>\<open>interaction_in_progress\<close> on
  every silent acquisition, \<^verbatim>\<open>getAccessToken()\<close> on the ready service with an account never
  returns: every retry finds the cache cleared, asks the provider again and recurses.
\<close>

theorem persistent_interaction_in_progress_counterexample:
  "getAccessToken stuckHost (readyWorld 0 [sampleAccount]) = None"
proof (rule ccontr)
  assume "getAccessToken stuckHost (readyWorld 0 [sampleAccount]) \<noteq> None"
  then obtain y where "getAccessToken stuckHost (readyWorld 0 [sampleAccount]) = Some y"
    by auto
  from getAccessToken_returns_only_if [OF this]
  obtain n where
    n: "\<not> stuck stuckHost ((afterRecovery stuckHost ^^ n) (readyWorld 0 [sampleAccount]))"
    by auto
  have "wedged (readyWorld 0 [sampleAccount])"
    by (simp add: wedged_def readyWorld_signedIn ensureInitialized_def)
  from wedged_forever [OF this, of n] wedged_step n show False by blast
qed

section \<open>Interleaved interactive logins\<close>

text \<open>
  The uninterrupted call is a run of the event loop: the call is invoked, the provider's
  promise settles with what the host answers, and the recovery timeout fires (an event
  that a completed call ignores).
\<close>

lemma acquireTokenSilent_as_phases:
  "snd (acquireTokenSilent P w) =
     (case acquireTokenSilent_begin P w of
        (Inl completed, w1) \<Rightarrow> w1
      | (Inr request, w1) \<Rightarrow>
          (let (r, h) = msal_acquireTokenSilent P request (host w1);
               w2 = acquireTokenSilent_settled P r (w1\<lparr>host := h\<rparr>)
           in if (case r of
                    Inl e \<Rightarrow> is_BrowserAuthError_code e ''interaction_in_progress''
                  | Inr x \<Rightarrow> False)
              then w2\<lparr>host := setTimeout_elapsed P 2000 (host w2)\<rparr>
              else w2))"
proof (cases "acquireTokenSilent_begin P w")
  case (Pair b w1)
  show ?thesis
  proof (cases b)
    case (Inl completed)
    with Pair show ?thesis
      by (auto simp: acquireTokenSilent_def acquireTokenSilent_begin_def
          split: option.splits sum.splits prod.splits)
  next
    case (Inr request)
    with Pair obtain acc where
      i: "ensureInitialized (svc w) = None" and c: "cacheHit P w = None"
      and a: "getCurrentAccount P w = Inr (Some acc)"
      and rq: "request = SilentRequest (scopes (the (config (svc w)))) acc False"
      and w1: "w1 = w\<lparr>trace := trace w @ [SilentRequested]\<rparr>"
      by (auto simp: acquireTokenSilent_begin_def split: option.splits sum.splits prod.splits)
    obtain r h where m: "msal_acquireTokenSilent P request (host w) = (r, h)"
      by (cases "msal_acquireTokenSilent P request (host w)")
    show ?thesis
      using Pair Inr i c a m
      unfolding rq w1
      by (cases r)
         (simp_all add: acquireTokenSilent_def acquireTokenSilent_settled_def
            handleInteractionInProgress_def Let_def setCachedToken_def
            handleInteractionInProgress_sync_def clearCachedToken_def
          split: option.splits)
  qed
qed

text \<open>
  A firing of the timer with nothing interleaved is its synchronous part, the provider's
  answer, and the settled part (followed by the recovery's two-second wait).
\<close>

lemma refreshCallback_as_phases:
  "refreshCallback P w =
     (case refreshCallback_begin P w of
        (None, w1) \<Rightarrow> w1
      | (Some request, w1) \<Rightarrow>
          (let (r, h) = msal_acquireTokenSilent P request (host w1);
               w2 = acquireTokenSilent_settled P r (w1\<lparr>host := h\<rparr>)
           in if (case r of
                    Inl e \<Rightarrow> is_BrowserAuthError_code e ''interaction_in_progress''
                  | Inr x \<Rightarrow> False)
              then w2\<lparr>host := setTimeout_elapsed P 2000 (host w2)\<rparr>
              else w2))"
proof (cases "isLoggedIn P w")
  case (Inl e)
  then show ?thesis by (simp add: refreshCallback_def refreshCallback_begin_def)
next
  case (Inr b)
  show ?thesis
  proof (cases b)
    case False
    with Inr show ?thesis by (simp add: refreshCallback_def refreshCallback_begin_def)
  next
    case True
    obtain d w1 where p: "acquireTokenSilent_begin P w = (d, w1)"
      by (cases "acquireTokenSilent_begin P w")
    show ?thesis
      using Inr True p acquireTokenSilent_as_phases [of P w]
      by (cases d) (simp_all add: refreshCallback_def refreshCallback_begin_def)
  qed
qed

lemma settled_host:
  "host (snd (loginInteractive_popup_settled P r w)) = host w"
  "host (snd (loginInteractive_redirect_settled r' w)) = host w"
  by (auto simp: loginInteractive_popup_settled_def loginInteractive_redirect_settled_def
      loginInteractive_catch_def loginInteractive_finally_def
      handleInteractionInProgress_sync_def clearCachedToken_def setCachedToken_def
      startTokenRefreshTimer_def stopTokenRefreshTimer_def Let_def
      split: sum.splits option.splits)

lemma loginInteractive_rejected_as_run:
  assumes "loginInteractive_begin w = (Inl e, w1)"
  shows "run P [Invoke] \<lparr>world = w, calls = [], silentPending = n\<rparr> =
           \<lparr>world = snd (loginInteractive P w),
            calls = [Completed (fst (loginInteractive P w))], silentPending = n\<rparr>"
  using assms by (simp add: run_def loginInteractive_def)

lemma loginInteractive_popup_as_run:
  assumes "loginInteractive_begin w = (Inr request, w1)" "flowType (svc w) \<noteq> redirect"
    and "msal_acquireTokenPopup P request (host w1) = (r, h)"
  shows "run P [Invoke, PopupSettles 0 r h, TimeoutFires 0 (setTimeout_elapsed P 2000 h)]
             \<lparr>world = w, calls = [], silentPending = n\<rparr> =
           \<lparr>world = snd (loginInteractive P w),
            calls = [Completed (fst (loginInteractive P w))], silentPending = n\<rparr>"
proof -
  have f: "flowType (svc w1) \<noteq> redirect"
    using assms(1,2) by (auto simp: loginInteractive_begin_cases split: if_splits)
  obtain res w2 where s: "loginInteractive_popup_settled P r (w1\<lparr>host := h\<rparr>) = (res, w2)"
    by (cases "loginInteractive_popup_settled P r (w1\<lparr>host := h\<rparr>)")
  have h2: "host w2 = h" using settled_host(1) [of P r "w1\<lparr>host := h\<rparr>"] s by simp
  show ?thesis
    using assms(1,3) f s h2
    by (cases res) (simp_all add: run_def loginInteractive_def resumed_def
        loginInteractive_recovered_def)
qed

lemma loginInteractive_redirect_as_run:
  assumes "loginInteractive_begin w = (Inr request, w1)" "flowType (svc w) = redirect"
    and "msal_acquireTokenRedirect P request (host w1) = (r, h)"
  shows "run P [Invoke, RedirectSettles 0 r h, TimeoutFires 0 (setTimeout_elapsed P 2000 h)]
             \<lparr>world = w, calls = [], silentPending = n\<rparr> =
           \<lparr>world = snd (loginInteractive P w),
            calls = [Completed (fst (loginInteractive P w))], silentPending = n\<rparr>"
proof -
  have f: "flowType (svc w1) = redirect"
    using assms(1,2) by (auto simp: loginInteractive_begin_cases split: if_splits)
  obtain res w2 where s: "loginInteractive_redirect_settled r (w1\<lparr>host := h\<rparr>) = (res, w2)"
    by (cases "loginInteractive_redirect_settled r (w1\<lparr>host := h\<rparr>)")
  have h2: "host w2 = h" using settled_host(2) [of r "w1\<lparr>host := h\<rparr>"] s by simp
  show ?thesis
    using assms(1,3) f s h2
    by (cases res) (simp_all add: run_def loginInteractive_def resumed_def
        loginInteractive_recovered_def)
qed

lemma filter_update_done:
  assumes "i < length cs" "pending (cs ! i)" "\<not> pending x"
  shows "Suc (length (filter pending (cs[i := x]))) = length (filter pending cs)"
  using assms
proof (induction cs arbitrary: i)
  case Nil
  then show ?case by simp
next
  case (Cons c cs)
  then show ?case by (cases i) auto
qed

lemma set_update_done:
  assumes "Recovering \<notin> set cs"
  shows "Recovering \<notin> set (cs[i := Completed r])"
  using assms set_update_subset_insert [of cs i "Completed r"] by auto

lemma settled_popup_done:
  assumes "\<not> (case r of
                Inl e \<Rightarrow> is_BrowserAuthError_code e ''interaction_in_progress''
              | Inr x \<Rightarrow> False)"
  shows "\<exists>res w1. loginInteractive_popup_settled P r w = (Some res, w1) \<and>
           \<not> isLoginInProgress (svc w1)"
  using assms
  by (auto simp: loginInteractive_popup_settled_def loginInteractive_catch_def
        loginInteractive_finally_def split: sum.splits)

lemma settled_redirect_done:
  assumes "\<not> (case r of
                Some e \<Rightarrow> is_BrowserAuthError_code e ''interaction_in_progress''
              | None \<Rightarrow> False)"
  shows "\<exists>res w1. loginInteractive_redirect_settled r w = (Some res, w1) \<and>
           \<not> isLoginInProgress (svc w1)"
  using assms
  by (auto simp: loginInteractive_redirect_settled_def loginInteractive_catch_def
        loginInteractive_finally_def split: option.splits)

lemma settled_clears_one:
  assumes inv: "flightInv c" and i: "i < length (calls c)" "pending (calls c ! i)"
    and l: "\<not> isLoginInProgress (svc w1)"
  shows "flightInv (c\<lparr>world := w1, calls := (calls c)[i := Completed res]\<rparr>)"
proof -
  have "Suc (length (filter pending ((calls c)[i := Completed res]))) =
          length (filter pending (calls c))"
    using i by (intro filter_update_done) simp_all
  moreover have "length (filter pending (calls c)) \<le> 1"
    using inv by (simp add: flightInv_def inFlight_def)
  ultimately have "length (filter pending ((calls c)[i := Completed res])) = 0"
    by linarith
  then have "inFlight (c\<lparr>world := w1, calls := (calls c)[i := Completed res]\<rparr>) = 0"
    by (simp add: inFlight_def)
  with inv l set_update_done [of "calls c" i res] show ?thesis
    by (simp add: flightInv_def)
qed

lemma refreshCallback_begin_frame:
  "isLoginInProgress (svc (snd (refreshCallback_begin P w))) = isLoginInProgress (svc w) \<and>
   ensureInitialized (svc (snd (refreshCallback_begin P w))) = ensureInitialized (svc w)"
  by (auto simp: refreshCallback_begin_def acquireTokenSilent_begin_def
        stopTokenRefreshTimer_def ensureInitialized_def getCurrentAccount_def
        getAllAccounts_def
      split: sum.splits bool.splits option.splits prod.splits list.splits)

lemma acquireTokenSilent_settled_frame:
  assumes "\<not> (case r of
                Inl e \<Rightarrow> is_BrowserAuthError_code e ''interaction_in_progress''
              | Inr x \<Rightarrow> False)"
  shows "isLoginInProgress (svc (acquireTokenSilent_settled P r w)) =
           isLoginInProgress (svc w) \<and>
         ensureInitialized (svc (acquireTokenSilent_settled P r w)) =
           ensureInitialized (svc w)"
  using assms
  by (auto simp: acquireTokenSilent_settled_def setCachedToken_def ensureInitialized_def
      split: sum.splits)

lemma flightInv_step:
  assumes inv: "flightInv c" and ok: "\<not> reportsStuck ev"
  shows "flightInv (step P c ev)"
proof (cases ev)
  case Invoke
  show ?thesis
  proof (cases "ensureInitialized (svc (world c)) \<noteq> None \<or> isLoginInProgress (svc (world c))")
    case True
    with inv Invoke show ?thesis
      by (auto simp: loginInteractive_begin_cases flightInv_def inFlight_def)
  next
    case False
    with inv have "inFlight c = 0" by (auto simp: flightInv_def)
    with inv Invoke False show ?thesis
      by (auto simp: loginInteractive_begin_cases flightInv_def inFlight_def
            ensureInitialized_def)
  qed
next
  case (PopupSettles i r h)
  show ?thesis
  proof (cases "i < length (calls c) \<and> calls c ! i = AwaitingPopup")
    case False
    with inv PopupSettles show ?thesis by auto
  next
    case True
    from ok PopupSettles
    have "\<not> (case r of
               Inl e \<Rightarrow> is_BrowserAuthError_code e ''interaction_in_progress''
             | Inr x \<Rightarrow> False)"
      by (cases r) simp_all
    from settled_popup_done [OF this, of P "(world c)\<lparr>host := h\<rparr>"]
    obtain res w1 where
      s: "loginInteractive_popup_settled P r ((world c)\<lparr>host := h\<rparr>) = (Some res, w1)"
      and l: "\<not> isLoginInProgress (svc w1)" by blast
    have st: "step P c ev = c\<lparr>world := w1, calls := (calls c)[i := Completed res]\<rparr>"
      using True PopupSettles s by (simp add: resumed_def)
    show ?thesis
      unfolding st using True by (intro settled_clears_one [OF inv _ _ l]) simp_all
  qed
next
  case (RedirectSettles i r h)
  show ?thesis
  proof (cases "i < length (calls c) \<and> calls c ! i = AwaitingRedirect")
    case False
    with inv RedirectSettles show ?thesis by auto
  next
    case True
    from ok RedirectSettles
    have "\<not> (case r of
               Some e \<Rightarrow> is_BrowserAuthError_code e ''interaction_in_progress''
             | None \<Rightarrow> False)"
      by (cases r) simp_all
    from settled_redirect_done [OF this, of "(world c)\<lparr>host := h\<rparr>"]
    obtain res w1 where
      s: "loginInteractive_redirect_settled r ((world c)\<lparr>host := h\<rparr>) = (Some res, w1)"
      and l: "\<not> isLoginInProgress (svc w1)" by blast
    have st: "step P c ev = c\<lparr>world := w1, calls := (calls c)[i := Completed res]\<rparr>"
      using True RedirectSettles s by (simp add: resumed_def)
    show ?thesis
      unfolding st using True by (intro settled_clears_one [OF inv _ _ l]) simp_all
  qed
next
  case (TimeoutFires i h)
  have "\<not> (i < length (calls c) \<and> calls c ! i = Recovering)"
    using inv by (auto simp: flightInv_def dest: nth_mem)
  with inv TimeoutFires show ?thesis by auto
next
  case (TimerFires t h)
  obtain sent w1 where b: "refreshCallback_begin P ((world c)\<lparr>host := h\<rparr>) = (sent, w1)"
    by (cases "refreshCallback_begin P ((world c)\<lparr>host := h\<rparr>)")
  have "isLoginInProgress (svc w1) = isLoginInProgress (svc (world c)) \<and>
        ensureInitialized (svc w1) = ensureInitialized (svc (world c))"
    using refreshCallback_begin_frame [of P "(world c)\<lparr>host := h\<rparr>"] b by simp
  with inv TimerFires b show ?thesis
    by (simp add: flightInv_def inFlight_def)
next
  case (SilentSettles r h)
  from ok SilentSettles
  have "\<not> (case r of
             Inl e \<Rightarrow> is_BrowserAuthError_code e ''interaction_in_progress''
           | Inr x \<Rightarrow> False)"
    by (cases r) simp_all
  from acquireTokenSilent_settled_frame [OF this, of P "(world c)\<lparr>host := h\<rparr>"]
    inv SilentSettles
  show ?thesis
    by (simp add: flightInv_def inFlight_def)
qed

lemma flightInv_run:
  assumes "flightInv c" "\<forall>ev \<in> set evs. \<not> reportsStuck ev"
  shows "flightInv (run P evs c)"
  using assms unfolding run_def
  by (induction evs arbitrary: c) (simp_all add: flightInv_step)

lemma idle_flightInv: "idle c \<Longrightarrow> flightInv c"
  by (simp add: idle_def flightInv_def inFlight_def)

lemmas loop_eval = run_def idleConf_def hostAt_def readyWorld_signedOut
  loginInteractive_begin_cases ensureInitialized_def resumed_def
  loginInteractive_popup_settled_def loginInteractive_catch_def loginInteractive_finally_def
  handleInteractionInProgress_sync_def clearCachedToken_def setCachedToken_def
  startTokenRefreshTimer_def stopTokenRefreshTimer_def stuckError_def sampleResult_def
  sampleHost_def scripted_def inFlight_def idle_def

text \<open>One call awaits its popup while the timer fires and its silent request settles.\<close>

lemma armed_after_fire:
  "run sampleHost [Invoke, TimerFires 1 (aliceAt 1800000)] armedConf =
     \<lparr>world = (readyWorld 0 [sampleAccount])\<lparr>
         svc := (svc (readyWorld 0 [sampleAccount]))\<lparr>isLoginInProgress := True\<rparr>,
         host := aliceAt 1800000,
         trace := [ConstructRequested, InitializeRequested, LoginInteractiveEntered,
                   PopupRequested, SilentRequested]\<rparr>,
      calls = [AwaitingPopup], silentPending = 1\<rparr>"
  by (simp add: run_def armedConf_def readyWorld_signedIn loginInteractive_begin_cases
      ensureInitialized_def refreshCallback_begin_def isLoggedIn_def getAllAccounts_def
      acquireTokenSilent_begin_def cacheHit_def getCurrentAccount_def sampleHost_def
      scripted_def aliceAt_def)

lemma armed_after_settle:
  "run sampleHost [Invoke, TimerFires 1 (aliceAt 1800000),
        SilentSettles (Inr sampleResult) (aliceAt 1800100)] armedConf =
     \<lparr>world = (readyWorld 0 [sampleAccount])\<lparr>
         svc := (svc (readyWorld 0 [sampleAccount]))\<lparr>isLoginInProgress := True,
                  cachedToken := Some ''tok'', tokenExpiryTime := Some 3300000\<rparr>,
         host := aliceAt 1800100,
         trace := [ConstructRequested, InitializeRequested, LoginInteractiveEntered,
                   PopupRequested, SilentRequested]\<rparr>,
      calls = [AwaitingPopup], silentPending = 0\<rparr>"
proof -
  have "run sampleHost [Invoke, TimerFires 1 (aliceAt 1800000),
        SilentSettles (Inr sampleResult) (aliceAt 1800100)] armedConf =
     step sampleHost (run sampleHost [Invoke, TimerFires 1 (aliceAt 1800000)] armedConf)
        (SilentSettles (Inr sampleResult) (aliceAt 1800100))"
    by (simp add: run_def)
  then show ?thesis
    unfolding armed_after_fire
    by (simp add: acquireTokenSilent_settled_def setCachedToken_def sampleResult_def
          readyWorld_signedIn)
qed

text \<open>
  Why the silent replies matter: when the timer's silent request is answered with
  \<^verbatim>\<open>interaction_in_progress\<close> while a call awaits its popup, the recovery clears the lock,
  and the next call reaches the provider too.
\<close>

lemma armed_after_stuck:
  "calls (run sampleHost [Invoke, TimerFires 1 (aliceAt 1800000),
        SilentSettles (Inl stuckError) (aliceAt 1800100), Invoke] armedConf) =
     [AwaitingPopup, AwaitingPopup]"
proof -
  have "run sampleHost [Invoke, TimerFires 1 (aliceAt 1800000),
        SilentSettles (Inl stuckError) (aliceAt 1800100), Invoke] armedConf =
     step sampleHost
       (step sampleHost (run sampleHost [Invoke, TimerFires 1 (aliceAt 1800000)] armedConf)
          (SilentSettles (Inl stuckError) (aliceAt 1800100))) Invoke"
    by (simp add: run_def)
  then show ?thesis
    unfolding armed_after_fire
    by (simp add: acquireTokenSilent_settled_def stuckError_def
          handleInteractionInProgress_sync_def clearCachedToken_def readyWorld_signedIn
          loginInteractive_begin_cases ensureInitialized_def)
qed

text \<open>
  Claim C2, as amended. Take any interleaving of \<^verbatim>\<open>loginInteractive()\<close> calls and firings
  of the renewal timer (no other method of the service is called meanwhile), started
  with the lock free, in which the provider never reports \<^verbatim>\<open>interaction_in_progress\<close>,
  neither to an interactive request nor to a silent request of the timer. Then at every
  moment at most one call is past the lock check and not yet completed, and the lock flag
  is set exactly while there is one. A call made while one is pending completes at once
  with the login-already-in-progress error and leaves the lock held. When no call is
  pending (before the first, or after a call has completed on any exit path) a new call on
  an initialized service passes the check and has set the lock when it suspends.
\<close>

theorem single_interactive_flight:
  fixes P :: "'h host_ops"
  assumes start: "idle c0" and calm: "\<forall>ev \<in> set evs. \<not> reportsStuck ev"
  shows "inFlight (run P evs c0) \<le> 1 \<and>
     (isLoginInProgress (svc (world (run P evs c0))) \<longleftrightarrow> inFlight (run P evs c0) = 1) \<and>
     (inFlight (run P evs c0) = 1 \<longrightarrow>
        calls (step P (run P evs c0) Invoke) =
          calls (run P evs c0) @ [Completed (Inl (Error ''Login already in progress''))] \<and>
        isLoginInProgress (svc (world (step P (run P evs c0) Invoke)))) \<and>
     (inFlight (run P evs c0) = 0 \<and> ensureInitialized (svc (world (run P evs c0))) = None \<longrightarrow>
        calls (step P (run P evs c0) Invoke) =
          calls (run P evs c0) @
            [if flowType (svc (world (run P evs c0))) = redirect then AwaitingRedirect
             else AwaitingPopup] \<and>
        isLoginInProgress (svc (world (step P (run P evs c0) Invoke))))"
proof -
  let ?c = "run P evs c0"
  have inv: "flightInv ?c"
    using flightInv_run [OF idle_flightInv [OF start] calm] .
  then have a: "inFlight ?c \<le> 1"
    and b: "isLoginInProgress (svc (world ?c)) \<longleftrightarrow> inFlight ?c = 1"
    and i: "inFlight ?c = 1 \<longrightarrow> ensureInitialized (svc (world ?c)) = None"
    by (simp_all add: flightInv_def)
  have c: "calls (step P ?c Invoke) =
          calls ?c @ [Completed (Inl (Error ''Login already in progress''))] \<and>
        isLoginInProgress (svc (world (step P ?c Invoke)))" if "inFlight ?c = 1"
    using that b i by (simp add: loginInteractive_begin_cases)
  have d: "calls (step P ?c Invoke) =
          calls ?c @ [if flowType (svc (world ?c)) = redirect then AwaitingRedirect
             else AwaitingPopup] \<and>
        isLoginInProgress (svc (world (step P ?c Invoke)))"
    if "inFlight ?c = 0" "ensureInitialized (svc (world ?c)) = None"
    using that b by (simp add: loginInteractive_begin_cases)
  from a b c d show ?thesis by blast
qed

theorem single_interactive_flight_witness:
  "idle idleConf \<and> idle armedConf \<and>
   \<not> reportsStuck (Invoke :: browser loop_event) \<and>
   \<not> reportsStuck (PopupSettles 0 (Inr sampleResult) (hostAt 10)) \<and>
   \<not> reportsStuck (TimerFires 1 (aliceAt 1800000)) \<and>
   \<not> reportsStuck (SilentSettles (Inr sampleResult) (aliceAt 1800100)) \<and>
   inFlight (run sampleHost [Invoke, TimerFires 1 (aliceAt 1800000),
        SilentSettles (Inr sampleResult) (aliceAt 1800100)] armedConf) = 1 \<and>
   isLoginInProgress (svc (world (run sampleHost [Invoke, TimerFires 1 (aliceAt 1800000),
        SilentSettles (Inr sampleResult) (aliceAt 1800100)] armedConf))) \<and>
   calls (step sampleHost (run sampleHost [Invoke, TimerFires 1 (aliceAt 1800000),
        SilentSettles (Inr sampleResult) (aliceAt 1800100)] armedConf) Invoke) =
     [AwaitingPopup, Completed (Inl (Error ''Login already in progress''))] \<and>
   inFlight (run sampleHost [Invoke, Invoke] idleConf) = 1 \<and>
   calls (run sampleHost [Invoke, Invoke] idleConf) =
     [AwaitingPopup, Completed (Inl (Error ''Login already in progress''))] \<and>
   calls (step sampleHost (run sampleHost [Invoke, Invoke] idleConf) Invoke) =
     [AwaitingPopup, Completed (Inl (Error ''Login already in progress'')),
      Completed (Inl (Error ''Login already in progress''))] \<and>
   inFlight (run sampleHost
      [Invoke, Invoke, PopupSettles 0 (Inr sampleResult) (hostAt 10)] idleConf) = 0 \<and>
   ensureInitialized (svc (world (run sampleHost
      [Invoke, Invoke, PopupSettles 0 (Inr sampleResult) (hostAt 10)] idleConf))) = None \<and>
   \<not> isLoginInProgress (svc (world (run sampleHost
      [Invoke, Invoke, PopupSettles 0 (Inr sampleResult) (hostAt 10)] idleConf))) \<and>
   calls (step sampleHost (run sampleHost
      [Invoke, Invoke, PopupSettles 0 (Inr sampleResult) (hostAt 10)] idleConf) Invoke) =
     [Completed (Inr sampleResult), Completed (Inl (Error ''Login already in progress'')),
      AwaitingPopup]"
proof -
  have i: "idle idleConf" by (simp add: loop_eval)
  have e1: "\<forall>ev \<in> set [Invoke, Invoke :: browser loop_event]. \<not> reportsStuck ev" by simp
  have e2: "\<forall>ev \<in> set [Invoke, Invoke, PopupSettles 0 (Inr sampleResult) (hostAt 10)].
              \<not> reportsStuck ev"
    by simp
  have n1: "inFlight (run sampleHost [Invoke, Invoke] idleConf) = 1"
    by (simp add: loop_eval)
  have c1: "calls (run sampleHost [Invoke, Invoke] idleConf) =
     [AwaitingPopup, Completed (Inl (Error ''Login already in progress''))]"
    by (simp add: loop_eval)
  have n2: "inFlight (run sampleHost
      [Invoke, Invoke, PopupSettles 0 (Inr sampleResult) (hostAt 10)] idleConf) = 0"
    by (simp add: loop_eval)
  have c2: "calls (run sampleHost
      [Invoke, Invoke, PopupSettles 0 (Inr sampleResult) (hostAt 10)] idleConf) =
     [Completed (Inr sampleResult), Completed (Inl (Error ''Login already in progress''))]"
    by (simp add: loop_eval)
  have i2: "ensureInitialized (svc (world (run sampleHost
      [Invoke, Invoke, PopupSettles 0 (Inr sampleResult) (hostAt 10)] idleConf))) = None"
    by (simp add: loop_eval)
  have f2: "flowType (svc (world (run sampleHost
      [Invoke, Invoke, PopupSettles 0 (Inr sampleResult) (hostAt 10)] idleConf))) = popup"
    by (simp add: loop_eval)
  have i3: "idle armedConf" by (simp add: armedConf_def idle_def readyWorld_signedIn)
  have e3: "\<forall>ev \<in> set [Invoke, TimerFires 1 (aliceAt 1800000),
        SilentSettles (Inr sampleResult) (aliceAt 1800100)]. \<not> reportsStuck ev"
    by simp
  have n3: "inFlight (run sampleHost [Invoke, TimerFires 1 (aliceAt 1800000),
        SilentSettles (Inr sampleResult) (aliceAt 1800100)] armedConf) = 1"
    "calls (run sampleHost [Invoke, TimerFires 1 (aliceAt 1800000),
        SilentSettles (Inr sampleResult) (aliceAt 1800100)] armedConf) = [AwaitingPopup]"
    unfolding armed_after_settle by (simp_all add: inFlight_def)
  from single_interactive_flight [OF i e1, of sampleHost]
       single_interactive_flight [OF i e2, of sampleHost]
       single_interactive_flight [OF i3 e3, of sampleHost]
       i i3 e1 e2 n1 c1 n2 c2 i2 f2 n3
  show ?thesis by simp
qed

text \<open>
  Claim C2 as stated fails. The first call's popup is rejected with
  \<^verbatim>\<open>interaction_in_progress\<close>; its recovery clears the lock and waits two seconds. A second
  call made during that wait passes the lock check although the first has not completed:
  two calls are in flight. When the first then completes, its \<^verbatim>\<open>finally\<close> releases the
  lock that the second holds, and a third call reaches the provider as well.
\<close>

theorem second_login_during_recovery_counterexample:
  "idle idleConf \<and>
   calls (run sampleHost [Invoke, PopupSettles 0 (Inl stuckError) (hostAt 10)] idleConf) =
     [Recovering] \<and>
   calls (run sampleHost [Invoke, PopupSettles 0 (Inl stuckError) (hostAt 10), Invoke]
            idleConf) = [Recovering, AwaitingPopup] \<and>
   inFlight (run sampleHost [Invoke, PopupSettles 0 (Inl stuckError) (hostAt 10), Invoke]
               idleConf) = 2 \<and>
   calls (run sampleHost [Invoke, PopupSettles 0 (Inl stuckError) (hostAt 10), Invoke,
                           TimeoutFires 0 (hostAt 2010), Invoke] idleConf) =
     [Completed (Inl (Error
        ''Authentication window was closed or interrupted. Please try again.'')),
      AwaitingPopup, AwaitingPopup]"
  by (simp add: loop_eval loginInteractive_recovered_def)

section \<open>Logout\<close>

lemma stopTokenRefreshTimer_stops:
  "tokenRefreshInterval (svc (stopTokenRefreshTimer w)) = None \<and>
   (\<forall>h. tokenRefreshInterval (svc w) = Some h \<longrightarrow>
        h \<notin> set (intervals (stopTokenRefreshTimer w)))"
  by (simp add: stopTokenRefreshTimer_def split: option.splits)

lemma logout_timer:
  assumes "ensureInitialized (svc w) = None"
  shows "tokenRefreshInterval (svc (snd (logout P w))) = None \<and>
         intervals (snd (logout P w)) = intervals (stopTokenRefreshTimer w)"
  using assms
  by (auto simp: logout_def Let_def getCurrentAccount_def getAllAccounts_def
        stopTokenRefreshTimer_def clearCachedToken_def
      split: option.splits list.splits prod.splits)

lemma logout_returns:
  assumes "ensureInitialized (svc w) = None" "fst (logout P w) = None"
  shows "\<not> isLoginInProgress (svc (snd (logout P w))) \<and>
         (msal_getAllAccounts P (host w) \<noteq> [] \<longrightarrow>
            cachedToken (svc (snd (logout P w))) = None \<and>
            tokenExpiryTime (svc (snd (logout P w))) = None) \<and>
         ensureInitialized (svc (snd (logout P w))) = None"
  using assms
  by (auto simp: logout_def Let_def getCurrentAccount_def getAllAccounts_def
        stopTokenRefreshTimer_def clearCachedToken_def ensureInitialized_def
      split: option.splits list.splits prod.splits if_splits)

lemma logout_outcome:
  assumes "ensureInitialized (svc w) = None"
  shows "fst (logout P w) = endSessionThrows P w"
  using assms
  by (auto simp: logout_def endSessionThrows_def Let_def getCurrentAccount_def
        getAllAccounts_def stopTokenRefreshTimer_def ensureInitialized_def
      split: option.splits list.splits prod.splits if_splits)

lemma logout_raises_keeps:
  assumes "fst (logout P w) \<noteq> None"
  shows "cachedToken (svc (snd (logout P w))) = cachedToken (svc w) \<and>
         tokenExpiryTime (svc (snd (logout P w))) = tokenExpiryTime (svc w) \<and>
         isLoginInProgress (svc (snd (logout P w))) = isLoginInProgress (svc w)"
  using assms
  by (auto simp: logout_def Let_def getCurrentAccount_def getAllAccounts_def
        stopTokenRefreshTimer_def
      split: option.splits list.splits prod.splits)

lemma logoutFails_eval:
  "logout logoutFailsHost (cachedWorld 1000) =
    (Some (Error ''popup_window_error''),
     \<lparr>svc = \<lparr>msalInstance = Some (PublicClientApplication (msalConfig_of sampleConfig)),
            config = Some sampleConfig, isInitialized = True, cachedToken = Some ''tok'',
            tokenExpiryTime = Some 3300000, isLoginInProgress = False, flowType = popup,
            tokenRefreshInterval = None\<rparr>,
     host = \<lparr>clock = 1000, signedIn = [sampleAccount], silentCount = 1\<rparr>,
     intervals = [], nextHandle = 2, sessionStorage = [], localStorage = [],
     storageThrows = False,
     trace = [ConstructRequested, InitializeRequested, SilentRequested,
              LogoutPopupRequested]\<rparr>)"
  by (simp add: logout_def cachedWorld_eval ensureInitialized_def stopTokenRefreshTimer_def
      getCurrentAccount_def getAllAccounts_def logoutFailsHost_def scripted_def)

lemma loggedOut_eval:
  "logout sampleHost (cachedWorld 1000) =
    (None,
     \<lparr>svc = \<lparr>msalInstance = Some (PublicClientApplication (msalConfig_of sampleConfig)),
            config = Some sampleConfig, isInitialized = True, cachedToken = None,
            tokenExpiryTime = None, isLoginInProgress = False, flowType = popup,
            tokenRefreshInterval = None\<rparr>,
     host = \<lparr>clock = 1000, signedIn = [], silentCount = 1\<rparr>,
     intervals = [], nextHandle = 2, sessionStorage = [], localStorage = [],
     storageThrows = False,
     trace = [ConstructRequested, InitializeRequested, SilentRequested,
              LogoutPopupRequested]\<rparr>)"
  by (simp add: logout_def cachedWorld_eval ensureInitialized_def stopTokenRefreshTimer_def
      getCurrentAccount_def getAllAccounts_def sampleHost_def scripted_def clearCachedToken_def)

text \<open>
  Claim C5, as amended. On every initialized service, after \<^verbatim>\<open>logout()\<close> returns or raises,
  the renewal timer is stopped: the handle is cleared, the timer is no longer armed and a
  firing of it does nothing. \<^verbatim>\<open>logout()\<close> raises exactly what the provider's end-session
  call throws, and returns normally when no account is present or that call succeeds.
  When it returns normally the lock flag is cleared, and the cached token and its expiry
  are cleared if an account was present. A following \<^verbatim>\<open>acquireTokenSilent()\<close> fails with
  the no-account error when the cache is empty and the provider lists no account. When
  \<^verbatim>\<open>logout()\<close> raises, the cached token, its expiry and the lock flag are left as they were.
\<close>

theorem logout_clears_state:
  assumes init: "ensureInitialized (svc w) = None"
  shows "tokenRefreshInterval (svc (snd (logout P w))) = None \<and>
     (\<forall>h. tokenRefreshInterval (svc w) = Some h \<longrightarrow>
          h \<notin> set (intervals (snd (logout P w))) \<and>
          fireInterval P h (snd (logout P w)) = snd (logout P w)) \<and>
     (fst (logout P w) = None \<longrightarrow>
        \<not> isLoginInProgress (svc (snd (logout P w))) \<and>
        (msal_getAllAccounts P (host w) \<noteq> [] \<longrightarrow>
           cachedToken (svc (snd (logout P w))) = None \<and>
           tokenExpiryTime (svc (snd (logout P w))) = None) \<and>
        (cachedToken (svc (snd (logout P w))) = None \<and>
         msal_getAllAccounts P (host (snd (logout P w))) = [] \<longrightarrow>
           acquireTokenSilent P (snd (logout P w)) =
             (Inl (Error ''NO_ACCOUNTS_FOUND''), snd (logout P w)))) \<and>
     fst (logout P w) = endSessionThrows P w \<and>
     (fst (logout P w) \<noteq> None \<longrightarrow>
        cachedToken (svc (snd (logout P w))) = cachedToken (svc w) \<and>
        tokenExpiryTime (svc (snd (logout P w))) = tokenExpiryTime (svc w) \<and>
        isLoginInProgress (svc (snd (logout P w))) = isLoginInProgress (svc w))"
proof -
  let ?w' = "snd (logout P w)"
  have t: "tokenRefreshInterval (svc ?w') = None"
    and iv: "intervals ?w' = intervals (stopTokenRefreshTimer w)"
    using logout_timer [OF init, of P] by simp_all
  have h: "h \<notin> set (intervals ?w') \<and> fireInterval P h ?w' = ?w'"
    if "tokenRefreshInterval (svc w) = Some h" for h
    using that iv stopTokenRefreshTimer_stops [of w] by (simp add: fireInterval_def)
  have r: "\<not> isLoginInProgress (svc ?w') \<and>
        (msal_getAllAccounts P (host w) \<noteq> [] \<longrightarrow>
           cachedToken (svc ?w') = None \<and> tokenExpiryTime (svc ?w') = None) \<and>
        (cachedToken (svc ?w') = None \<and> msal_getAllAccounts P (host ?w') = [] \<longrightarrow>
           acquireTokenSilent P ?w' = (Inl (Error ''NO_ACCOUNTS_FOUND''), ?w'))"
    if "fst (logout P w) = None"
    using logout_returns [OF init that] acquireTokenSilent_no_account [of ?w' P] by blast
  have o: "fst (logout P w) = endSessionThrows P w"
    by (rule logout_outcome [OF init])
  have k: "cachedToken (svc ?w') = cachedToken (svc w) \<and>
        tokenExpiryTime (svc ?w') = tokenExpiryTime (svc w) \<and>
        isLoginInProgress (svc ?w') = isLoginInProgress (svc w)"
    if "fst (logout P w) \<noteq> None"
    using that by (rule logout_raises_keeps)
  from t h r o k show ?thesis by blast
qed

theorem logout_clears_state_witness:
  "ensureInitialized (svc (cachedWorld 1000)) = None \<and>
   tokenRefreshInterval (svc (cachedWorld 1000)) = Some 1 \<and>
   fst (logout sampleHost (cachedWorld 1000)) = None \<and>
   msal_getAllAccounts sampleHost (host (cachedWorld 1000)) \<noteq> [] \<and>
   msal_getAllAccounts sampleHost (host (snd (logout sampleHost (cachedWorld 1000)))) = [] \<and>
   tokenRefreshInterval (svc (snd (logout sampleHost (cachedWorld 1000)))) = None \<and>
   1 \<notin> set (intervals (snd (logout sampleHost (cachedWorld 1000)))) \<and>
   \<not> isLoginInProgress (svc (snd (logout sampleHost (cachedWorld 1000)))) \<and>
   cachedToken (svc (snd (logout sampleHost (cachedWorld 1000)))) = None \<and>
   fst (acquireTokenSilent sampleHost (snd (logout sampleHost (cachedWorld 1000)))) =
     Inl (Error ''NO_ACCOUNTS_FOUND'') \<and>
   fst (logout logoutFailsHost (cachedWorld 1000)) \<noteq> None \<and>
   endSessionThrows logoutFailsHost (cachedWorld 1000) = Some (Error ''popup_window_error'') \<and>
   tokenRefreshInterval (svc (snd (logout logoutFailsHost (cachedWorld 1000)))) = None \<and>
   cachedToken (svc (snd (logout logoutFailsHost (cachedWorld 1000)))) = Some ''tok'' \<and>
   tokenExpiryTime (svc (snd (logout logoutFailsHost (cachedWorld 1000)))) = Some 3300000"
proof -
  have i: "ensureInitialized (svc (cachedWorld 1000)) = None"
    by (simp add: cachedWorld_eval ensureInitialized_def)
  have a: "msal_getAllAccounts sampleHost (host (cachedWorld 1000)) \<noteq> []"
    "tokenRefreshInterval (svc (cachedWorld 1000)) = Some 1"
    "cachedToken (svc (cachedWorld 1000)) = Some ''tok''"
    "tokenExpiryTime (svc (cachedWorld 1000)) = Some 3300000"
    by (simp_all add: cachedWorld_eval sampleHost_def scripted_def)
  have b: "fst (logout sampleHost (cachedWorld 1000)) = None"
    "msal_getAllAccounts sampleHost (host (snd (logout sampleHost (cachedWorld 1000)))) = []"
    unfolding loggedOut_eval by (simp_all add: sampleHost_def scripted_def)
  have c: "fst (logout logoutFailsHost (cachedWorld 1000)) = Some (Error ''popup_window_error'')"
    unfolding logoutFails_eval by simp
  have d: "endSessionThrows logoutFailsHost (cachedWorld 1000) =
             Some (Error ''popup_window_error'')"
    by (simp add: endSessionThrows_def cachedWorld_eval logoutFailsHost_def scripted_def)
  from logout_clears_state [OF i, of sampleHost] logout_clears_state [OF i, of logoutFailsHost]
    a b c d i
  show ?thesis by simp
qed

text \<open>
  Claim C5 as stated fails. With a token cached and an account present, the provider's
  end-session call throws: \<^verbatim>\<open>logout()\<close> raises, the cached token is still there, and the
  following \<^verbatim>\<open>acquireTokenSilent()\<close> returns it instead of failing with the no-account
  error. A lock flag that was set stays set.
\<close>

theorem logout_failure_keeps_cache_counterexample:
  "fst (logout logoutFailsHost (cachedWorld 1000)) = Some (Error ''popup_window_error'') \<and>
   cachedToken (svc (snd (logout logoutFailsHost (cachedWorld 1000)))) = Some ''tok'' \<and>
   acquireTokenSilent logoutFailsHost (snd (logout logoutFailsHost (cachedWorld 1000))) =
     (Inr \<lparr>accessToken = ''tok'', expiresOn = Some 3300000, account = Some sampleAccount\<rparr>,
      snd (logout logoutFailsHost (cachedWorld 1000))) \<and>
   isLoginInProgress (svc (snd (logout logoutFailsHost
      ((cachedWorld 1000)\<lparr>svc := (svc (cachedWorld 1000))\<lparr>isLoginInProgress := True\<rparr>\<rparr>))))"
  by (simp add: logout_def cachedWorld_eval ensureInitialized_def stopTokenRefreshTimer_def
      getCurrentAccount_def getAllAccounts_def logoutFailsHost_def scripted_def
      acquireTokenSilent_def cacheHit_def)

end
